theory Spec2Isabelle
  imports Main "HOL-Library.AList"
begin

section \<open>Python values shared by the embedded functions\<close>

text \<open>
  The exceptions the embedded Python can raise. Every \<open>raise\<close>, failed \<open>assert\<close>,
  out-of-range index and missing key of the source is a value \<open>Inl e\<close> of the model.
\<close>

datatype py_error =
    AssertionError
  | TypeError
  | IndexError
  | KeyError
  | FileNotFoundError
  | UnpicklingError
  | UnboundLocalError
  | RuntimeError
  | AttributeError
  | UnicodeDecodeError
  | EOFError

text \<open>
  A Python \<open>dict\<close> is an association list with distinct keys, in insertion order:
  \<open>d.get(k)\<close> is \<open>map_of d k\<close>, \<open>len(d)\<close> is \<open>length d\<close>, \<open>d[k] = v\<close> is
  \<open>AList.update k v d\<close> (replace in place, or append a new key at the end).
\<close>

type_synonym ('k, 'v) pydict = "('k \<times> 'v) list"

definition dict_ok :: "('k, 'v) pydict \<Rightarrow> bool" where
  "dict_ok d = distinct (map fst d)"

section \<open>\<open>data/utils.py\<close>: \<open>get_id\<close>\<close>

text \<open>
  \<^verbatim>\<open>
  def get_id(nid_dict, key):
      nid = nid_dict.get(key, None)
      is_new = False
      if nid is None:
          is_new = True
          nid = len(nid_dict)
          nid_dict[key] = nid
      return nid, is_new
  \<close>
  The dictionary is mutated in place; the model returns it next to the result.
\<close>

definition get_id :: "('k, int) pydict \<Rightarrow> 'k \<Rightarrow> (int \<times> bool) \<times> ('k, int) pydict" where
  "get_id nid_dict key =
     (case map_of nid_dict key of
        Some nid \<Rightarrow> ((nid, False), nid_dict)
      | None \<Rightarrow>
          (let nid = int (length nid_dict)
           in ((nid, True), AList.update key nid nid_dict)))"

text \<open>The dense-ID invariant: the values are exactly \<open>0, ..., len - 1\<close>.\<close>

definition dense_ids :: "('k, int) pydict \<Rightarrow> bool" where
  "dense_ids d = (dict_ok d \<and> set (map snd d) = set (map int [0..<length d]))"

section \<open>\<open>data/utils.py\<close>: \<open>save_raw_text\<close> and \<open>load_raw_text\<close>\<close>

text \<open>
  A Python string is a \<open>string\<close> whose characters are the code points U+0000 to
  U+00FF; text beyond that range is outside the model. The values that are pickled are
  strings and dictionaries with string keys. A file holds either text or a pickled
  value; the file system maps a path to its file. Opening a file for writing creates or
  truncates it (the directory is taken to exist).
\<close>

datatype pyobj = PStr string | PDict "(string \<times> pyobj) list"

datatype file_content = TextFile string | PickleFile pyobj

type_synonym filesystem = "string \<rightharpoonup> file_content"

text \<open>\<open>os.path.join(a, b)\<close> on POSIX, for two strings.\<close>

definition path_join :: "string \<Rightarrow> string \<Rightarrow> string" where
  "path_join a b =
     (if b \<noteq> [] \<and> hd b = CHR ''/'' then b
      else if a = [] \<or> last a = CHR ''/'' then a @ b
      else a @ ''/'' @ b)"

text \<open>
  \<^verbatim>\<open>
  def save_raw_text(path, dname, raw_text):
      config = {"nodes":{}}
      for ntype, text_data in raw_text.items():
          nfile = "{}_{}.txt".format(dname, ntype)
          config["nodes"][ntype] = nfile
          nfile = os.path.join(path, nfile)
          with open(nfile, 'w+', encoding='utf-8') as f:
              for line in text_data:
                  f.write("{}\n".format(line))
      config_path = "{}.pkl".format(dname)
      config_path = os.path.join(path, config_path)
      with open(config_path, 'wb') as f:
          pickle.dump(config, f)
  \<close>
  The loop state is the inner dictionary \<open>config["nodes"]\<close> and the file system.
\<close>

definition write_lines :: "string list \<Rightarrow> string" where
  "write_lines text_data = concat (map (\<lambda>line. line @ [CHR 0x0A]) text_data)"

fun save_raw_text_loop ::
  "string \<Rightarrow> string \<Rightarrow> (string, string list) pydict \<Rightarrow>
   (string \<times> pyobj) list \<times> filesystem \<Rightarrow> (string \<times> pyobj) list \<times> filesystem" where
  "save_raw_text_loop path dname [] (nodes, fs) = (nodes, fs)"
| "save_raw_text_loop path dname ((ntype, text_data) # rest) (nodes, fs) =
     (let nfile = dname @ ''_'' @ ntype @ ''.txt'';
          nodes' = AList.update ntype (PStr nfile) nodes;
          nfile' = path_join path nfile;
          fs' = fs(nfile' \<mapsto> TextFile (write_lines text_data))
      in save_raw_text_loop path dname rest (nodes', fs'))"

definition save_raw_text ::
  "filesystem \<Rightarrow> string \<Rightarrow> string \<Rightarrow> (string, string list) pydict \<Rightarrow> filesystem" where
  "save_raw_text fs path dname raw_text =
     (let (nodes, fs') = save_raw_text_loop path dname raw_text ([], fs);
          config = PDict [(''nodes'', PDict nodes)];
          config_path = path_join path (dname @ ''.pkl'')
      in fs'(config_path \<mapsto> PickleFile config))"

text \<open>
  Reading a text file line by line: \<open>\r\n\<close> and \<open>\r\<close> are read as \<open>\n\<close> (universal
  newlines), a line ends at \<open>\n\<close>, and a last line without \<open>\n\<close> is a line too.
  \<open>str.strip()\<close> removes the white space at both ends; the white-space characters
  of Python up to U+00FF are U+0009 to U+000D, U+001C to U+0020, U+0085 and U+00A0.
\<close>

fun translate_newlines :: "string \<Rightarrow> string" where
  "translate_newlines [] = []"
| "translate_newlines [c] = (if c = CHR 0x0D then [CHR 0x0A] else [c])"
| "translate_newlines (c # d # cs) =
     (if c = CHR 0x0D \<and> d = CHR 0x0A then CHR 0x0A # translate_newlines cs
      else if c = CHR 0x0D then CHR 0x0A # translate_newlines (d # cs)
      else c # translate_newlines (d # cs))"

fun split_lines :: "string \<Rightarrow> string list" where
  "split_lines [] = []"
| "split_lines (c # cs) =
     (if c = CHR 0x0A then [] # split_lines cs
      else (case split_lines cs of
              [] \<Rightarrow> [[c]]
            | l # ls \<Rightarrow> (c # l) # ls))"

definition is_space :: "char \<Rightarrow> bool" where
  "is_space c = (c \<in> set [CHR 0x09, CHR 0x0A, CHR 0x0B, CHR 0x0C, CHR 0x0D,
                           CHR 0x1C, CHR 0x1D, CHR 0x1E, CHR 0x1F, CHR 0x20,
                           CHR 0x85, CHR 0xA0])"

definition strip :: "string \<Rightarrow> string" where
  "strip s = rev (dropWhile is_space (rev (dropWhile is_space s)))"

definition read_lines :: "string \<Rightarrow> string list" where
  "read_lines content = map strip (split_lines (translate_newlines content))"

text \<open>
  \<^verbatim>\<open>
  def load_raw_text(path, dname):
      config_path = "{}.pkl".format(dname)
      config_path = os.path.join(path, config_path)
      with open(config_path, 'rb') as f:
          config = pickle.load(f)
      text_data = {}
      for ntype, nfile in config.items():
          tdata = []
          nfile = os.path.join(path, nfile)
          with open(nfile, 'r', encoding='utf-8') as f:
              for line in f:
                  line = line.strip()
                  tdata.append(line)
          text_data[ntype] = tdata
      return text_data
  \<close>
  The loop runs over the items of the unpickled \<open>config\<close> itself. \<open>os.path.join\<close>
  raises \<open>TypeError\<close> on a second argument that is not a string; a missing file raises
  \<open>FileNotFoundError\<close>; a pickle read as UTF-8 text raises \<open>UnicodeDecodeError\<close>.
  \<open>pickle.load\<close> raises \<open>EOFError\<close> on an empty file, and on a text file that is
  not empty it raises \<open>UnpicklingError\<close> (text that happens to be a pickle is outside
  the model).
\<close>

fun load_raw_text_loop ::
  "filesystem \<Rightarrow> string \<Rightarrow> (string \<times> pyobj) list \<Rightarrow>
   (string, string list) pydict \<Rightarrow> py_error + (string, string list) pydict" where
  "load_raw_text_loop fs path [] text_data = Inr text_data"
| "load_raw_text_loop fs path ((ntype, nfile) # rest) text_data =
     (case nfile of
        PDict _ \<Rightarrow> Inl TypeError
      | PStr nf \<Rightarrow>
          (case fs (path_join path nf) of
             None \<Rightarrow> Inl FileNotFoundError
           | Some (PickleFile _) \<Rightarrow> Inl UnicodeDecodeError
           | Some (TextFile content) \<Rightarrow>
               load_raw_text_loop fs path rest
                 (AList.update ntype (read_lines content) text_data)))"

definition load_raw_text ::
  "filesystem \<Rightarrow> string \<Rightarrow> string \<Rightarrow> py_error + (string, string list) pydict" where
  "load_raw_text fs path dname =
     (case fs (path_join path (dname @ ''.pkl'')) of
        None \<Rightarrow> Inl FileNotFoundError
      | Some (TextFile content) \<Rightarrow>
          (if content = [] then Inl EOFError else Inl UnpicklingError)
      | Some (PickleFile config) \<Rightarrow>
          (case config of
             PStr _ \<Rightarrow> Inl AttributeError
           | PDict items \<Rightarrow> load_raw_text_loop fs path items []))"

section \<open>\<open>data/utils.py\<close>: the communication primitives\<close>

text \<open>
  A tensor has a shape, its values in row-major order and a device. \<open>t.to(device)\<close>
  moves it and keeps shape and values.
\<close>

datatype device = CPU | GPU nat

record 'v tensor =
  t_shape :: "nat list"
  t_values :: "'v list"
  t_device :: device

definition to_device :: "device \<Rightarrow> 'v tensor \<Rightarrow> 'v tensor" where
  "to_device dev t = t\<lparr>t_device := dev\<rparr>"

text \<open>
  What one rank does on the network, in order: \<open>dist.isend(tensor, dst)\<close>, which is
  asynchronous and returns at once, \<open>dist.recv(buffer, src)\<close> and \<open>barrier()\<close>. What a
  \<open>dist.recv\<close> does is decided by the other ranks, so it is a parameter
  \<open>net src buffer\<close> of the model: the receive fills the buffer, or never completes (the
  hang of a mismatched exchange), or raises. A call of a primitive returns, raises or
  blocks for ever; \<open>Barrier\<close> records that the rank has entered the barrier.
\<close>

datatype 'v recv_result = Received "'v tensor" | RecvBlocks | RecvRaises py_error

datatype comm_outcome = Returned | Raised py_error | Blocked

datatype 'v comm_event =
    ISend "'v tensor" nat
  | Recv nat "'v tensor"
  | Barrier

type_synonym 'v comm_state = "'v tensor list \<times> 'v comm_event list"

text \<open>
  \<^verbatim>\<open>
      senders = []
      for i in range(world_size):
          if i == rank:
              output_tensor_list[i] = input_tensor_list[i].to(th.device('cpu'))
          else:
              sender = dist.isend(input_tensor_list[i].to(th.device('cpu')), dst=i)
              senders.append(sender)
  \<close>
  The two backends differ only in the conversion \<open>conv\<close> applied to the input tensor
  (\<open>.to(cpu)\<close> for gloo, nothing for NCCL). Reading or writing a list at an index that
  is not below its length raises \<open>IndexError\<close>; the sends issued before stay issued.
\<close>

fun alltoallv_send ::
  "('v tensor \<Rightarrow> 'v tensor) \<Rightarrow> int \<Rightarrow> 'v tensor list \<Rightarrow> nat list \<Rightarrow>
   'v comm_state \<Rightarrow> comm_outcome \<times> 'v comm_state" where
  "alltoallv_send conv rank input_tensor_list [] st = (Returned, st)"
| "alltoallv_send conv rank input_tensor_list (i # rest) (outs, evs) =
     (if int i = rank then
        (if i < length input_tensor_list then
           (if i < length outs then
              alltoallv_send conv rank input_tensor_list rest
                (outs[i := conv (input_tensor_list ! i)], evs)
            else (Raised IndexError, (outs, evs)))
         else (Raised IndexError, (outs, evs)))
      else
        (if i < length input_tensor_list then
           alltoallv_send conv rank input_tensor_list rest
             (outs, evs @ [ISend (conv (input_tensor_list ! i)) i])
         else (Raised IndexError, (outs, evs))))"

text \<open>
  \<^verbatim>\<open>
      for i in range(world_size):
          if i != rank:
              dist.recv(output_tensor_list[i], src=i)
  \<close>
  The event records the call of \<open>dist.recv\<close> with the buffer it was given, whatever
  becomes of it.
\<close>

fun alltoallv_recv ::
  "(nat \<Rightarrow> 'v tensor \<Rightarrow> 'v recv_result) \<Rightarrow> int \<Rightarrow> nat list \<Rightarrow>
   'v comm_state \<Rightarrow> comm_outcome \<times> 'v comm_state" where
  "alltoallv_recv net rank [] st = (Returned, st)"
| "alltoallv_recv net rank (i # rest) (outs, evs) =
     (if int i \<noteq> rank then
        (if i < length outs then
           (case net i (outs ! i) of
              Received t \<Rightarrow>
                alltoallv_recv net rank rest (outs[i := t], evs @ [Recv i (outs ! i)])
            | RecvBlocks \<Rightarrow> (Blocked, (outs, evs @ [Recv i (outs ! i)]))
            | RecvRaises e \<Rightarrow> (Raised e, (outs, evs @ [Recv i (outs ! i)])))
         else (Raised IndexError, (outs, evs)))
      else alltoallv_recv net rank rest (outs, evs))"

text \<open>The body shared by both backends: the send loop, the receive loop, the barrier.\<close>

definition alltoallv ::
  "('v tensor \<Rightarrow> 'v tensor) \<Rightarrow> (nat \<Rightarrow> 'v tensor \<Rightarrow> 'v recv_result) \<Rightarrow> int \<Rightarrow> int \<Rightarrow>
   'v tensor list \<Rightarrow> 'v tensor list \<Rightarrow> comm_outcome \<times> 'v comm_state" where
  "alltoallv conv net rank world_size output_tensor_list input_tensor_list =
     (case alltoallv_send conv rank input_tensor_list [0..<nat world_size]
             (output_tensor_list, []) of
        (Returned, st) \<Rightarrow>
          (case alltoallv_recv net rank [0..<nat world_size] st of
             (Returned, (outs, evs)) \<Rightarrow> (Returned, (outs, evs @ [Barrier]))
           | (Raised e, st') \<Rightarrow> (Raised e, st')
           | (Blocked, st') \<Rightarrow> (Blocked, st'))
      | (Raised e, st) \<Rightarrow> (Raised e, st)
      | (Blocked, st) \<Rightarrow> (Blocked, st))"

definition alltoallv_cpu ::
  "(nat \<Rightarrow> 'v tensor \<Rightarrow> 'v recv_result) \<Rightarrow> int \<Rightarrow> int \<Rightarrow>
   'v tensor list \<Rightarrow> 'v tensor list \<Rightarrow> comm_outcome \<times> 'v comm_state" where
  "alltoallv_cpu net rank world_size output_tensor_list input_tensor_list =
     alltoallv (to_device CPU) net rank world_size output_tensor_list input_tensor_list"

definition alltoallv_nccl ::
  "(nat \<Rightarrow> 'v tensor \<Rightarrow> 'v recv_result) \<Rightarrow> int \<Rightarrow> int \<Rightarrow>
   'v tensor list \<Rightarrow> 'v tensor list \<Rightarrow> comm_outcome \<times> 'v comm_state" where
  "alltoallv_nccl net rank world_size output_tensor_list input_tensor_list =
     alltoallv (\<lambda>t. t) net rank world_size output_tensor_list input_tensor_list"




text \<open>
  \<^verbatim>\<open>
  def all_reduce_sum(tensor):
      dist.all_reduce(tensor, op=dist.ReduceOp.SUM)
  \<close>
  \<open>dist.all_reduce\<close> is the library's collective: seen from the whole job, the tensors
  of the ranks (one entry per rank, in rank order) are all replaced by their reduction
  under \<open>op\<close>. The sum of two tensors adds their values position by position.
\<close>

definition dist_all_reduce ::
  "('v tensor \<Rightarrow> 'v tensor \<Rightarrow> 'v tensor) \<Rightarrow> 'v tensor list \<Rightarrow> 'v tensor list" where
  "dist_all_reduce op tensors =
     (case tensors of
        [] \<Rightarrow> []
      | t # rest \<Rightarrow> replicate (length tensors) (foldl op t rest))"

definition reduce_op_sum :: "('v::plus) tensor \<Rightarrow> 'v tensor \<Rightarrow> 'v tensor" where
  "reduce_op_sum a b = a\<lparr>t_values := map2 (+) (t_values a) (t_values b)\<rparr>"

definition all_reduce_sum :: "('v::plus) tensor list \<Rightarrow> 'v tensor list" where
  "all_reduce_sum tensors = dist_all_reduce reduce_op_sum tensors"

section \<open>\<open>trainer/ep_trainer.py\<close>: \<open>GSgnnEdgePredictionTrainer\<close>\<close>

text \<open>
  Node and edge IDs are lists of naturals. A value that the code tests with
  \<open>isinstance(x, dict)\<close> is either a plain value or a dictionary keyed by type name.
  A canonical edge type is the triple (source type, edge type, destination type).
\<close>

type_synonym ids = "nat list"

type_synonym cetype = "string \<times> string \<times> string"

datatype 'a maybe_dict = NotDict 'a | IsDict "(string, 'a) pydict"

text \<open>
  The mini-batch graph, as far as \<open>fit\<close> reads it: \<open>ntypes\<close>, \<open>canonical_etypes\<close>,
  and \<open>edges[etype].data[dgl.EID]\<close> (absent for an edge type without that field).
  As in DGL, \<open>etypes\<close> is the list of the middle components of \<open>canonical_etypes\<close>.
\<close>

record batch_graph =
  bg_ntypes :: "string list"
  bg_canonical_etypes :: "cetype list"
  bg_edge_ids :: "string \<Rightarrow> ids option"

definition bg_etypes :: "batch_graph \<Rightarrow> string list" where
  "bg_etypes g = map (\<lambda>(src, etype, dst). etype) (bg_canonical_etypes g)"

text \<open>
  The collaborators of the trainer. \<open>'w\<close> is everything they keep between calls (model
  parameters, optimizer and evaluator state, saved checkpoints); \<open>'s\<close> is a score, \<open>'x\<close>
  a tensor-valued payload (features, labels, predictions, embeddings), \<open>'b\<close> a block and
  \<open>'l\<close> a validation or test loader. Feature and label gathering can raise.
\<close>

record ('w, 's, 'x) evaluator =
  do_eval :: "'w \<Rightarrow> nat \<Rightarrow> bool \<Rightarrow> bool \<times> 'w"
  do_early_stop :: "'w \<Rightarrow> 's \<Rightarrow> bool \<times> 'w"
  evaluate :: "'w \<Rightarrow> 'x \<Rightarrow> 'x \<Rightarrow> 'x \<Rightarrow> 'x \<Rightarrow> nat \<Rightarrow> ('s \<times> 's) \<times> 'w"

record ('w, 's, 'x, 'b, 'l) trainer =
  evaluator :: "('w, 's, 'x) evaluator option"
  self_rank :: int
  model_step :: "'w \<Rightarrow> 'b list \<Rightarrow> batch_graph \<Rightarrow> 'x \<Rightarrow> (string, ids) pydict \<Rightarrow> 'x \<Rightarrow> 'w"
  save_topk_models :: "'w \<Rightarrow> nat \<Rightarrow> nat option \<Rightarrow> 's option \<Rightarrow> string option \<Rightarrow> 'w"
  edge_mini_batch_gnn_predict :: "'w \<Rightarrow> 'l option \<Rightarrow> 'x \<times> 'x"
  do_full_graph_inference :: "'w \<Rightarrow> 'x \<Rightarrow> 'x"
  edge_mini_batch_predict :: "'w \<Rightarrow> 'x \<Rightarrow> 'l option \<Rightarrow> 'x \<times> 'x"
  loader_data :: "'l \<Rightarrow> 'x"

record ('x, 'b) train_loader =
  get_node_feats :: "(string, ids) pydict \<Rightarrow> py_error + 'x"
  get_labels :: "(cetype, ids) pydict \<Rightarrow> py_error + 'x"
  batches :: "nat \<Rightarrow> (ids maybe_dict \<times> batch_graph \<times> 'b list) list"

record 'l fit_args =
  val_loader :: "'l option"
  test_loader :: "'l option"
  mini_batch_infer :: bool
  save_model_path :: "string option"
  save_model_per_iters :: "int option"

text \<open>
  What \<open>fit\<close> does, in order. Printing and wall-clock timing are left out.
\<close>

datatype 's fit_event =
    EvEpochStart nat
  | EvTrainStep nat nat
  | EvGetNodeFeats "(string, ids) pydict"
  | EvGetLabels cetype ids
  | EvModelStep nat
  | EvDoEval nat bool bool
  | EvEval nat
  | EvDoEarlyStop bool
  | EvSaveTopK nat "nat option" "'s option"
  | EvBarrier
  | EvLogParams

record ('w, 's) fit_state =
  world :: 'w
  total_steps :: nat
  early_stop :: bool
  trace :: "'s fit_event list"

datatype ('a, 'st) res = Raise py_error 'st | Ok 'a 'st

definition emit :: "'s fit_event \<Rightarrow> ('w, 's) fit_state \<Rightarrow> ('w, 's) fit_state" where
  "emit e st = st\<lparr>trace := trace st @ [e]\<rparr>"

text \<open>
  \<^verbatim>\<open>
          if self.evaluator is not None:
              assert val_loader is not None, \
                      "The evaluator is provided but validation set is not provided."
  \<close>
\<close>

definition check_configuration :: "'e option \<Rightarrow> 'l option \<Rightarrow> py_error + unit" where
  "check_configuration ev vl =
     (if ev \<noteq> None then (if vl \<noteq> None then Inr () else Inl AssertionError) else Inr ())"

text \<open>
  \<^verbatim>\<open>
      def eval(self, model, val_loader, test_loader, mini_batch_infer, total_steps):
          if mini_batch_infer:
              val_pred, val_label = edge_mini_batch_gnn_predict(model, val_loader, ...)
              test_pred, test_label = edge_mini_batch_gnn_predict(model, test_loader, ...)
          else:
              emb = do_full_graph_inference(model, val_loader.data, ...)
              val_pred, val_label = edge_mini_batch_predict(model, emb, val_loader, ...)
              test_pred, test_label = edge_mini_batch_predict(model, emb, test_loader, ...)
          val_score, test_score = self.evaluator.evaluate(val_pred, test_pred,
                                                          val_label, test_label, total_steps)
          return val_score
  \<close>
  \<open>val_loader.data\<close> on \<open>None\<close> raises \<open>AttributeError\<close>, and so does
  \<open>self.evaluator.evaluate\<close> without an evaluator.
\<close>

definition trainer_eval ::
  "('w, 's, 'x, 'b, 'l) trainer \<Rightarrow> 'l option \<Rightarrow> 'l option \<Rightarrow> bool \<Rightarrow> nat \<Rightarrow>
   ('w, 's) fit_state \<Rightarrow> ('s, ('w, 's) fit_state) res" where
  "trainer_eval T val_ld test_ld mb steps st0 =
     (let st = emit (EvEval steps) st0; w = world st
      in case (if mb then
                 (let (val_pred, val_label) = edge_mini_batch_gnn_predict T w val_ld;
                      (test_pred, test_label) = edge_mini_batch_gnn_predict T w test_ld
                  in Inr (val_pred, val_label, test_pred, test_label))
               else
                 (case val_ld of
                    None \<Rightarrow> Inl AttributeError
                  | Some v \<Rightarrow>
                      (let emb = do_full_graph_inference T w (loader_data T v);
                           (val_pred, val_label) = edge_mini_batch_predict T w emb val_ld;
                           (test_pred, test_label) = edge_mini_batch_predict T w emb test_ld
                       in Inr (val_pred, val_label, test_pred, test_label)))) of
           Inl e \<Rightarrow> Raise e st
         | Inr (val_pred, val_label, test_pred, test_label) \<Rightarrow>
             (case evaluator T of
                None \<Rightarrow> Raise AttributeError st
              | Some ev \<Rightarrow>
                  (let ((val_score, test_score), w') =
                         evaluate ev w val_pred test_pred val_label test_label steps
                   in Ok val_score (st\<lparr>world := w'\<rparr>))))"

text \<open>
  \<^verbatim>\<open>
                  val_score = None
                  if self.evaluator is not None and \
                      self.evaluator.do_eval(total_steps, epoch_end=False):
                      val_score = self.eval(model.module, val_loader, test_loader,
                                            mini_batch_infer, total_steps)
                      if self.evaluator.do_early_stop(val_score):
                          early_stop = True
  \<close>
  The same block runs after a step (\<open>epoch_end = False\<close>) and at the end of an epoch
  (\<open>epoch_end = True\<close>).
\<close>

definition evaluate_and_check_stop ::
  "('w, 's, 'x, 'b, 'l) trainer \<Rightarrow> 'l fit_args \<Rightarrow> bool \<Rightarrow>
   ('w, 's) fit_state \<Rightarrow> ('s option, ('w, 's) fit_state) res" where
  "evaluate_and_check_stop T A epoch_end st =
     (case evaluator T of
        None \<Rightarrow> Ok None st
      | Some ev \<Rightarrow>
          (let (go, w1) = do_eval ev (world st) (total_steps st) epoch_end;
               st1 = emit (EvDoEval (total_steps st) epoch_end go) (st\<lparr>world := w1\<rparr>)
           in if go then
                (case trainer_eval T (val_loader A) (test_loader A) (mini_batch_infer A)
                        (total_steps st1) st1 of
                   Raise e st2 \<Rightarrow> Raise e st2
                 | Ok val_score st2 \<Rightarrow>
                     (let (stop, w3) = do_early_stop ev (world st2) val_score;
                          st3 = emit (EvDoEarlyStop stop) (st2\<lparr>world := w3\<rparr>)
                      in Ok (Some val_score)
                           (if stop then st3\<lparr>early_stop := True\<rparr> else st3)))
              else Ok None st1))"

text \<open>
  \<^verbatim>\<open>
                  if not isinstance(input_nodes, dict):
                      assert len(batch_graph.ntypes) == 1
                      input_nodes = {batch_graph.ntypes[0]: input_nodes}
  \<close>
\<close>

definition wrap_input_nodes ::
  "batch_graph \<Rightarrow> ids maybe_dict \<Rightarrow> py_error + (string, ids) pydict" where
  "wrap_input_nodes batch_graph input_nodes =
     (case input_nodes of
        IsDict d \<Rightarrow> Inr d
      | NotDict t \<Rightarrow>
          (if length (bg_ntypes batch_graph) = 1
           then Inr [(bg_ntypes batch_graph ! 0, t)]
           else Inl AssertionError))"

text \<open>
  \<^verbatim>\<open>
                  input_feats = data.get_node_feats(input_nodes, device)
                  # TODO(zhengda) expand code for multiple edge types
                  assert len(batch_graph.etypes) == 1
                  predict_etype = batch_graph.canonical_etypes[0]
                  seeds = batch_graph.edges[predict_etype[1]].data[dgl.EID]
                  lbl = data.get_labels({predict_etype: seeds}, device)
  \<close>
  The events record the calls of \<open>get_node_feats\<close> and \<open>get_labels\<close>, whether they
  return or raise.
\<close>

definition gather_batch ::
  "('x, 'b) train_loader \<Rightarrow> ids maybe_dict \<times> batch_graph \<times> 'b list \<Rightarrow>
   ('w, 's) fit_state \<Rightarrow>
   ((string, ids) pydict \<times> 'x \<times> 'x, ('w, 's) fit_state) res" where
  "gather_batch L batch st =
     (case batch of (input_nodes, batch_graph, blocks) \<Rightarrow>
        (case wrap_input_nodes batch_graph input_nodes of
           Inl e \<Rightarrow> Raise e st
         | Inr inp \<Rightarrow>
             (let st1 = emit (EvGetNodeFeats inp) st
              in case get_node_feats L inp of
                   Inl e \<Rightarrow> Raise e st1
                 | Inr input_feats \<Rightarrow>
                     (if length (bg_etypes batch_graph) \<noteq> 1 then Raise AssertionError st1
                      else
                        (let predict_etype = bg_canonical_etypes batch_graph ! 0
                         in case bg_edge_ids batch_graph (fst (snd predict_etype)) of
                              None \<Rightarrow> Raise KeyError st1
                            | Some seeds \<Rightarrow>
                                (let st2 = emit (EvGetLabels predict_etype seeds) st1
                                 in case get_labels L [(predict_etype, seeds)] of
                                      Inl e \<Rightarrow> Raise e st2
                                    | Inr lbl \<Rightarrow> Ok (inp, input_feats, lbl) st2))))))"

text \<open>
  The body of one training step up to the checkpoint condition: the step counter, the
  gathering above, \<open>loss = model(...)\<close> with \<open>zero_grad\<close>, \<open>backward\<close>, \<open>step\<close> and
  \<open>log_metric\<close> (one call of \<open>model_step\<close>), then the evaluation block.
\<close>

definition train_step_body ::
  "('w, 's, 'x, 'b, 'l) trainer \<Rightarrow> ('x, 'b) train_loader \<Rightarrow> 'l fit_args \<Rightarrow> nat \<Rightarrow> nat \<Rightarrow>
   ids maybe_dict \<times> batch_graph \<times> 'b list \<Rightarrow>
   ('w, 's) fit_state \<Rightarrow> ('s option, ('w, 's) fit_state) res" where
  "train_step_body T L A epoch i batch st =
     (let st0 = emit (EvTrainStep epoch i) (st\<lparr>total_steps := total_steps st + 1\<rparr>)
      in case gather_batch L batch st0 of
           Raise e st1 \<Rightarrow> Raise e st1
         | Ok (inp, input_feats, lbl) st1 \<Rightarrow>
             (case batch of (input_nodes, batch_graph, blocks) \<Rightarrow>
                (let w = model_step T (world st1) blocks batch_graph input_feats inp lbl;
                     st2 = emit (EvModelStep (total_steps st1)) (st1\<lparr>world := w\<rparr>)
                 in evaluate_and_check_stop T A False st2)))"

text \<open>
  \<^verbatim>\<open>
                  if save_model_per_iters > 0 and i % save_model_per_iters == 0 and i != 0:
                      self.save_topk_models(model, epoch, i, val_score, save_model_path)
  \<close>
  Comparing \<open>None\<close> with \<open>0\<close> raises \<open>TypeError\<close>.
\<close>

definition save_per_iters ::
  "('w, 's, 'x, 'b, 'l) trainer \<Rightarrow> 'l fit_args \<Rightarrow> nat \<Rightarrow> nat \<Rightarrow> 's option \<Rightarrow>
   ('w, 's) fit_state \<Rightarrow> (unit, ('w, 's) fit_state) res" where
  "save_per_iters T A epoch i val_score st =
     (case save_model_per_iters A of
        None \<Rightarrow> Raise TypeError st
      | Some n \<Rightarrow>
          (if n > 0 \<and> int i mod n = 0 \<and> i \<noteq> 0
           then Ok () (emit (EvSaveTopK epoch (Some i) val_score)
                        (st\<lparr>world := save_topk_models T (world st) epoch (Some i) val_score
                                         (save_model_path A)\<rparr>))
           else Ok () st))"

definition train_step ::
  "('w, 's, 'x, 'b, 'l) trainer \<Rightarrow> ('x, 'b) train_loader \<Rightarrow> 'l fit_args \<Rightarrow> nat \<Rightarrow> nat \<Rightarrow>
   ids maybe_dict \<times> batch_graph \<times> 'b list \<Rightarrow>
   ('w, 's) fit_state \<Rightarrow> (unit, ('w, 's) fit_state) res" where
  "train_step T L A epoch i batch st =
     (case train_step_body T L A epoch i batch st of
        Raise e st1 \<Rightarrow> Raise e st1
      | Ok val_score st1 \<Rightarrow> save_per_iters T A epoch i val_score st1)"

text \<open>
  \<^verbatim>\<open>
              for i, (input_nodes, batch_graph, blocks) in enumerate(train_loader):
                  ...
                  # early_stop, exit current interation.
                  if early_stop is True:
                      break
  \<close>
\<close>

fun fit_steps ::
  "('w, 's, 'x, 'b, 'l) trainer \<Rightarrow> ('x, 'b) train_loader \<Rightarrow> 'l fit_args \<Rightarrow> nat \<Rightarrow>
   (nat \<times> ids maybe_dict \<times> batch_graph \<times> 'b list) list \<Rightarrow>
   ('w, 's) fit_state \<Rightarrow> (unit, ('w, 's) fit_state) res" where
  "fit_steps T L A epoch [] st = Ok () st"
| "fit_steps T L A epoch ((i, batch) # rest) st =
     (case train_step T L A epoch i batch st of
        Raise e st1 \<Rightarrow> Raise e st1
      | Ok _ st1 \<Rightarrow> (if early_stop st1 then Ok () st1 else fit_steps T L A epoch rest st1))"

text \<open>
  One pass of the epoch loop: \<open>model.train()\<close>, the steps, the barrier, the epoch-end
  evaluation, the per-epoch checkpoint with iteration \<open>None\<close>, the second barrier.
\<close>

definition fit_epoch ::
  "('w, 's, 'x, 'b, 'l) trainer \<Rightarrow> ('x, 'b) train_loader \<Rightarrow> 'l fit_args \<Rightarrow> nat \<Rightarrow>
   ('w, 's) fit_state \<Rightarrow> (unit, ('w, 's) fit_state) res" where
  "fit_epoch T L A epoch st =
     (case fit_steps T L A epoch (List.enumerate 0 (batches L epoch))
             (emit (EvEpochStart epoch) st) of
        Raise e st1 \<Rightarrow> Raise e st1
      | Ok _ st1 \<Rightarrow>
          (case evaluate_and_check_stop T A True (emit EvBarrier st1) of
             Raise e st2 \<Rightarrow> Raise e st2
           | Ok val_score st2 \<Rightarrow>
               Ok () (emit EvBarrier
                       (emit (EvSaveTopK epoch None val_score)
                          (st2\<lparr>world := save_topk_models T (world st2) epoch None val_score
                                            (save_model_path A)\<rparr>)))))"

text \<open>
  \<^verbatim>\<open>
          for epoch in range(n_epochs):
              ...
              # early_stop, exit training
              if early_stop is True:
                  break
  \<close>
\<close>

fun fit_epochs ::
  "('w, 's, 'x, 'b, 'l) trainer \<Rightarrow> ('x, 'b) train_loader \<Rightarrow> 'l fit_args \<Rightarrow> nat list \<Rightarrow>
   ('w, 's) fit_state \<Rightarrow> (unit, ('w, 's) fit_state) res" where
  "fit_epochs T L A [] st = Ok () st"
| "fit_epochs T L A (epoch # rest) st =
     (case fit_epoch T L A epoch st of
        Raise e st1 \<Rightarrow> Raise e st1
      | Ok _ st1 \<Rightarrow> (if early_stop st1 then Ok () st1 else fit_epochs T L A rest st1))"

text \<open>
  \<open>fit\<close> after its configuration check: the initial values of the loop variables, the
  epoch loop, and the final report of the coordinating rank.
\<close>

definition fit_start :: "'w \<Rightarrow> ('w, 's) fit_state" where
  "fit_start w = \<lparr>world = w, total_steps = 0, early_stop = False, trace = []\<rparr>"

definition fit_train ::
  "('w, 's, 'x, 'b, 'l) trainer \<Rightarrow> ('x, 'b) train_loader \<Rightarrow> int \<Rightarrow> 'l fit_args \<Rightarrow>
   'w \<Rightarrow> (unit, ('w, 's) fit_state) res" where
  "fit_train T L n_epochs A w =
     (case fit_epochs T L A [0..<nat n_epochs] (fit_start w) of
        Raise e st \<Rightarrow> Raise e st
      | Ok _ st \<Rightarrow>
          (if self_rank T = 0 \<and> evaluator T \<noteq> None then Ok () (emit EvLogParams st)
           else Ok () st))"

definition fit ::
  "('w, 's, 'x, 'b, 'l) trainer \<Rightarrow> ('x, 'b) train_loader \<Rightarrow> int \<Rightarrow> 'l option \<Rightarrow> 'l option \<Rightarrow>
   bool \<Rightarrow> string option \<Rightarrow> int option \<Rightarrow> 'w \<Rightarrow> (unit, ('w, 's) fit_state) res" where
  "fit T train_ld n_epochs val_ld test_ld mb_infer model_path per_iters w =
     (case check_configuration (evaluator T) val_ld of
        Inl e \<Rightarrow> Raise e (fit_start w)
      | Inr _ \<Rightarrow>
          fit_train T train_ld n_epochs
            \<lparr>val_loader = val_ld, test_loader = test_ld, mini_batch_infer = mb_infer,
             save_model_path = model_path, save_model_per_iters = per_iters\<rparr> w)"

text \<open>
  Reading a run. \<open>res_state\<close> is the state a call ends in, whether it returned or
  raised. The events of a training step are the step itself, its feature and label
  gathering and its model update; together with the start of an epoch they are the
  training events. \<open>no_training_after_stop\<close> says that nothing of the kind comes after
  an answer \<open>True\<close> of \<open>do_early_stop\<close>. \<open>new_events\<close> are the events a call added.
\<close>

definition res_state :: "('a, 'st) res \<Rightarrow> 'st" where
  "res_state r = (case r of Raise e st \<Rightarrow> st | Ok x st \<Rightarrow> st)"

fun is_training_event :: "'s fit_event \<Rightarrow> bool" where
  "is_training_event (EvEpochStart _) = True"
| "is_training_event (EvTrainStep _ _) = True"
| "is_training_event (EvGetNodeFeats _) = True"
| "is_training_event (EvGetLabels _ _) = True"
| "is_training_event (EvModelStep _) = True"
| "is_training_event _ = False"

definition no_training_after_stop :: "'s fit_event list \<Rightarrow> bool" where
  "no_training_after_stop tr =
     (\<forall>pre post. tr = pre @ EvDoEarlyStop True # post \<longrightarrow>
        (\<forall>e \<in> set post. \<not> is_training_event e))"

definition new_events ::
  "('w, 's) fit_state \<Rightarrow> ('w, 's) fit_state \<Rightarrow> 's fit_event list" where
  "new_events st st' = drop (length (trace st)) (trace st')"

text \<open>
  The invariant of the training loop: the flag \<open>early_stop\<close> is set exactly when
  \<open>do_early_stop\<close> has answered \<open>True\<close>, and no training event follows such an answer.
  A state extends another by bookkeeping (\<open>bk_ext\<close>) when the added events are not
  training events and the flag follows the answers among them; it extends it by training
  (\<open>tr_ext\<close>) when no answer \<open>True\<close> is added and the flag is untouched.
\<close>

definition stop_inv :: "('w, 's) fit_state \<Rightarrow> bool" where
  "stop_inv st = ((early_stop st \<longleftrightarrow> EvDoEarlyStop True \<in> set (trace st))
                  \<and> no_training_after_stop (trace st))"

definition bk_ext :: "('w, 's) fit_state \<Rightarrow> ('w, 's) fit_state \<Rightarrow> bool" where
  "bk_ext st st' =
     (\<exists>evs. trace st' = trace st @ evs
          \<and> (\<forall>e \<in> set evs. \<not> is_training_event e)
          \<and> (early_stop st' \<longleftrightarrow> early_stop st \<or> EvDoEarlyStop True \<in> set evs))"

definition tr_ext :: "('w, 's) fit_state \<Rightarrow> ('w, 's) fit_state \<Rightarrow> bool" where
  "tr_ext st st' =
     (\<exists>evs. trace st' = trace st @ evs
          \<and> EvDoEarlyStop True \<notin> set evs
          \<and> early_stop st' = early_stop st)"


text \<open>Collaborators for concrete runs: an evaluator that asks to stop once the score
  (here the step count) reaches 2, a loader of three mini-batches per epoch over a graph
  with one node type and one edge type, and a model step that counts its calls.\<close>

definition demo_graph :: batch_graph where
  "demo_graph =
     \<lparr>bg_ntypes = [''n0''],
      bg_canonical_etypes = [(''n0'', ''r'', ''n0'')],
      bg_edge_ids = (\<lambda>etype. if etype = ''r'' then Some [0, 1] else None)\<rparr>"

definition demo_graph_two :: batch_graph where
  "demo_graph_two =
     \<lparr>bg_ntypes = [''n0''],
      bg_canonical_etypes = [(''n0'', ''r'', ''n0''), (''n0'', ''q'', ''n0'')],
      bg_edge_ids = (\<lambda>etype. if etype = ''r'' \<or> etype = ''q'' then Some [0, 1] else None)\<rparr>"

definition demo_evaluator :: "(nat, int, unit) evaluator" where
  "demo_evaluator =
     \<lparr>do_eval = (\<lambda>w steps epoch_end. (True, w)),
      do_early_stop = (\<lambda>w score. (2 \<le> score, w)),
      evaluate = (\<lambda>w val_pred test_pred val_label test_label steps. ((int steps, 0), w))\<rparr>"

definition demo_trainer :: "(nat, int, unit, unit, unit) trainer" where
  "demo_trainer =
     \<lparr>evaluator = Some demo_evaluator,
      self_rank = 0,
      model_step = (\<lambda>w blocks g feats inp lbl. Suc w),
      save_topk_models = (\<lambda>w epoch i score path. w),
      edge_mini_batch_gnn_predict = (\<lambda>w ld. ((), ())),
      do_full_graph_inference = (\<lambda>w d. ()),
      edge_mini_batch_predict = (\<lambda>w emb ld. ((), ())),
      loader_data = (\<lambda>ld. ())\<rparr>"

definition demo_loader :: "(unit, unit) train_loader" where
  "demo_loader =
     \<lparr>get_node_feats = (\<lambda>d. Inr ()),
      get_labels = (\<lambda>d. Inr ()),
      batches = (\<lambda>epoch. replicate 3 (NotDict [0], demo_graph, [()]))\<rparr>"

text \<open>The same loader over a data object that has no features for the input nodes.\<close>

definition demo_loader_no_feats :: "(unit, unit) train_loader" where
  "demo_loader_no_feats = demo_loader\<lparr>get_node_feats := (\<lambda>d. Inl KeyError)\<rparr>"

text \<open>And over a data object that has no labels for the seed edges.\<close>

definition demo_loader_no_labels :: "(unit, unit) train_loader" where
  "demo_loader_no_labels = demo_loader\<lparr>get_labels := (\<lambda>d. Inl KeyError)\<rparr>"

section \<open>\<open>model/gnn_encoder_base.py\<close>: \<open>dist_inference\<close>\<close>

text \<open>
  A two-dimensional tensor is the list of its rows, with its width kept beside them (a
  tensor without rows still has a width); its shape is the number of rows and the
  width. A distributed tensor also has the name it was created under. Reading rows at a
  list of IDs raises \<open>IndexError\<close> on an ID that is not below the row count.
\<close>

type_synonym 'v matrix = "'v list list"

record 'v dist_tensor =
  dt_width :: nat
  dt_name :: string
  dt_rows :: "'v matrix"

definition dt_shape :: "'v dist_tensor \<Rightarrow> nat \<times> nat" where
  "dt_shape t = (length (dt_rows t), dt_width t)"

definition get_rows :: "'v dist_tensor \<Rightarrow> ids \<Rightarrow> py_error + 'v matrix" where
  "get_rows t idx =
     (if \<forall>i \<in> set idx. i < length (dt_rows t)
      then Inr (map (\<lambda>i. dt_rows t ! i) idx)
      else Inl IndexError)"

text \<open>
  The indexed assignment \<open>t[idx] = vals\<close> broadcasts: \<open>vals\<close> has one row per ID or a
  single row, and its rows have the width of the tensor or width one; anything else
  raises \<open>RuntimeError\<close>, and an ID that is not below the row count raises
  \<open>IndexError\<close>. When an ID occurs twice the later row stays.
\<close>

definition broadcast_rows :: "nat \<Rightarrow> nat \<Rightarrow> 'v matrix \<Rightarrow> 'v matrix" where
  "broadcast_rows m w vals =
     map (\<lambda>r. if length r = w then r else replicate w (hd r))
       (if length vals = m then vals else replicate m (hd vals))"

definition set_rows :: "'v dist_tensor \<Rightarrow> ids \<Rightarrow> 'v matrix \<Rightarrow> py_error + 'v dist_tensor" where
  "set_rows t idx vals =
     (if \<not> ((length vals = length idx \<or> length vals = 1)
            \<and> ((\<forall>r \<in> set vals. length r = dt_width t) \<or> (\<forall>r \<in> set vals. length r = 1)))
      then Inl RuntimeError
      else if \<exists>i \<in> set idx. \<not> i < length (dt_rows t) then Inl IndexError
      else Inr (t\<lparr>dt_rows :=
                  fold (\<lambda>(i, r) rows. rows[i := r])
                    (zip idx (broadcast_rows (length idx) (dt_width t) vals)) (dt_rows t)\<rparr>))"

text \<open>
  The distributed tensors of a job live in its key-value store under the node type of
  their partition policy and their name. \<open>DistTensor(shape, name=..., part_policy=...,
  persistent=True)\<close> creates a tensor of zeros under a name that is new to the store;
  under a name the store already has (a persistent tensor stays when its handle is
  dropped, so also from an earlier call) it asserts that the stored shape is the one
  asked for and hands out the stored tensor with the rows it has. All tensors of the
  store have the element type of the model, so the assertion on the dtype cannot fail.
\<close>

type_synonym 'v kvstore = "(string \<times> string, 'v dist_tensor) pydict"

definition DistTensor ::
  "('v::zero) kvstore \<Rightarrow> nat \<times> nat \<Rightarrow> string \<Rightarrow> string \<Rightarrow>
   py_error + ('v dist_tensor \<times> 'v kvstore)" where
  "DistTensor store shape name policy =
     (case map_of store (policy, name) of
        None \<Rightarrow>
          (let t = \<lparr>dt_width = snd shape, dt_name = name,
                    dt_rows = replicate (fst shape) (replicate (snd shape) 0)\<rparr>
           in Inr (t, AList.update (policy, name) t store))
      | Some t \<Rightarrow> (if dt_shape t = shape then Inr (t, store) else Inl AssertionError))"

text \<open>\<open>str(i)\<close> for a natural number.\<close>

fun str_nat :: "nat \<Rightarrow> string" where
  "str_nat n =
     (if n < 10 then [char_of (48 + n)]
      else str_nat (n div 10) @ [char_of (48 + n mod 10)])"

declare str_nat.simps [simp del]

text \<open>
  The graph as \<open>dist_inference\<close> reads it, the encoder (\<open>h_dims\<close>, \<open>out_dims\<close> and its
  layers, each a function of a block and the input features), and the sampling side:
  \<open>node_split\<close> gives the locally owned nodes of a type, and the \<open>DistNodeDataLoader\<close>
  of layer \<open>i\<close> (with its batch size, fanout and shuffling) the mini-batches (input nodes,
  output nodes, blocks) of its pass. The tracker's \<open>keep_alive\<close> and the barrier
  do not touch the tensors and are left out. The model follows one rank: the rows that
  other ranks write into the same distributed tensors are not represented, and
  \<open>node_feats\<close> are tensors of their own, not tensors of the store.
\<close>

record dist_graph =
  g_ntypes :: "string list"
  g_number_of_nodes :: "string \<Rightarrow> nat"

record ('blk, 'v) gnn_encoder =
  enc_h_dims :: nat
  enc_out_dims :: nat
  enc_layers :: "('blk \<Rightarrow> (string, 'v matrix) pydict \<Rightarrow> (string, 'v matrix) pydict) list"

record 'blk sampling =
  node_split :: "string \<Rightarrow> nat \<Rightarrow> ids"
  data_loader :: "nat \<Rightarrow> (string, ids) pydict \<Rightarrow>
                  (ids maybe_dict \<times> ids maybe_dict \<times> 'blk list) list"

text \<open>
  \<^verbatim>\<open>
              y = {}
              for k in g.ntypes:
                  h_dim = gnn_encoder.h_dims \
                          if i < len(gnn_encoder.layers) - 1 else gnn_encoder.out_dims
                  y[k] = DistTensor((g.number_of_nodes(k), h_dim),
                                    dtype=th.float32, name='h-' + str(i),
                                    part_policy=g.get_node_partition_policy(k),
                                    persistent=True)
  \<close>
\<close>

definition layer_width :: "('blk, 'v) gnn_encoder \<Rightarrow> nat \<Rightarrow> nat" where
  "layer_width gnn_encoder i =
     (if int i < int (length (enc_layers gnn_encoder)) - 1
      then enc_h_dims gnn_encoder else enc_out_dims gnn_encoder)"

fun alloc_loop ::
  "dist_graph \<Rightarrow> ('blk, 'v::zero) gnn_encoder \<Rightarrow> nat \<Rightarrow> string list \<Rightarrow>
   (string, 'v dist_tensor) pydict \<times> 'v kvstore \<Rightarrow>
   py_error + ((string, 'v dist_tensor) pydict \<times> 'v kvstore)" where
  "alloc_loop g gnn_encoder i [] (y, store) = Inr (y, store)"
| "alloc_loop g gnn_encoder i (k # ks) (y, store) =
     (case DistTensor store (g_number_of_nodes g k, layer_width gnn_encoder i)
             (''h-'' @ str_nat i) k of
        Inl e \<Rightarrow> Inl e
      | Inr (t, store') \<Rightarrow> alloc_loop g gnn_encoder i ks (AList.update k t y, store'))"

definition alloc_outputs ::
  "dist_graph \<Rightarrow> ('blk, 'v::zero) gnn_encoder \<Rightarrow> nat \<Rightarrow> 'v kvstore \<Rightarrow>
   py_error + ((string, 'v dist_tensor) pydict \<times> 'v kvstore)" where
  "alloc_outputs g gnn_encoder i store = alloc_loop g gnn_encoder i (g_ntypes g) ([], store)"

text \<open>
  \<^verbatim>\<open>
              infer_nodes = {}
              for ntype in g.ntypes:
                  infer_nodes[ntype] = node_split(th.ones((g.number_of_nodes(ntype),), ...),
                                                  partition_book=g.get_partition_book(),
                                                  ntype=ntype, force_even=False)
  \<close>
\<close>

definition infer_nodes_of :: "dist_graph \<Rightarrow> 'blk sampling \<Rightarrow> (string, ids) pydict" where
  "infer_nodes_of g S =
     fold (\<lambda>ntype d. AList.update ntype (node_split S ntype (g_number_of_nodes g ntype)) d)
       (g_ntypes g) []"

text \<open>
  \<^verbatim>\<open>
                  if not isinstance(input_nodes, dict):
                      # This happens on a homogeneous graph.
                      assert len(g.ntypes) == 1
                      input_nodes = {g.ntypes[0]: input_nodes}
  \<close>
  and the same for \<open>output_nodes\<close>.
\<close>

definition wrap_nodes :: "dist_graph \<Rightarrow> ids maybe_dict \<Rightarrow> py_error + (string, ids) pydict" where
  "wrap_nodes g nodes =
     (case nodes of
        IsDict d \<Rightarrow> Inr d
      | NotDict t \<Rightarrow>
          (if length (g_ntypes g) = 1 then Inr [(g_ntypes g ! 0, t)] else Inl AssertionError))"

text \<open>
  \<^verbatim>\<open>
                  h = {k: x[k][input_nodes[k]].to(device) for k in input_nodes.keys()}
  \<close>
\<close>

fun gather_feats ::
  "(string, 'v dist_tensor) pydict \<Rightarrow> (string, ids) pydict \<Rightarrow>
   py_error + (string, 'v matrix) pydict" where
  "gather_feats x [] = Inr []"
| "gather_feats x ((k, idx) # rest) =
     (case map_of x k of
        None \<Rightarrow> Inl KeyError
      | Some t \<Rightarrow>
          (case get_rows t idx of
             Inl e \<Rightarrow> Inl e
           | Inr m \<Rightarrow>
               (case gather_feats x rest of
                  Inl e \<Rightarrow> Inl e
                | Inr h \<Rightarrow> Inr ((k, m) # h))))"

text \<open>
  \<^verbatim>\<open>
                  for k in h.keys():
                      # some ntypes might be in the tensor h but are not in the output nodes
                      # that have empty tensors
                      if k in output_nodes:
                          y[k][output_nodes[k]] = h[k].cpu()
  \<close>
\<close>

fun scatter_outputs ::
  "(string, ids) pydict \<Rightarrow> (string, 'v matrix) pydict \<Rightarrow>
   (string, 'v dist_tensor) pydict \<Rightarrow> py_error + (string, 'v dist_tensor) pydict" where
  "scatter_outputs output_nodes [] y = Inr y"
| "scatter_outputs output_nodes ((k, hk) # rest) y =
     (case map_of output_nodes k of
        None \<Rightarrow> scatter_outputs output_nodes rest y
      | Some idx \<Rightarrow>
          (case map_of y k of
             None \<Rightarrow> Inl KeyError
           | Some t \<Rightarrow>
               (case set_rows t idx hk of
                  Inl e \<Rightarrow> Inl e
                | Inr t' \<Rightarrow> scatter_outputs output_nodes rest (AList.update k t' y))))"

text \<open>One mini-batch of the pass of one layer: \<open>blocks[0]\<close>, the two wrappings, the
  feature lookup in \<open>x\<close>, the layer, the scatter into \<open>y\<close>.\<close>

definition infer_batch ::
  "dist_graph \<Rightarrow> (string, 'v dist_tensor) pydict \<Rightarrow>
   ('blk \<Rightarrow> (string, 'v matrix) pydict \<Rightarrow> (string, 'v matrix) pydict) \<Rightarrow>
   ids maybe_dict \<times> ids maybe_dict \<times> 'blk list \<Rightarrow>
   (string, 'v dist_tensor) pydict \<Rightarrow> py_error + (string, 'v dist_tensor) pydict" where
  "infer_batch g x layer batch y =
     (case batch of (input_nodes, output_nodes, blocks) \<Rightarrow>
        (case blocks of
           [] \<Rightarrow> Inl IndexError
         | block # _ \<Rightarrow>
             (case wrap_nodes g input_nodes of
                Inl e \<Rightarrow> Inl e
              | Inr input_nodes' \<Rightarrow>
                  (case wrap_nodes g output_nodes of
                     Inl e \<Rightarrow> Inl e
                   | Inr output_nodes' \<Rightarrow>
                       (case gather_feats x input_nodes' of
                          Inl e \<Rightarrow> Inl e
                        | Inr h \<Rightarrow> scatter_outputs output_nodes' (layer block h) y)))))"

fun infer_batches ::
  "dist_graph \<Rightarrow> (string, 'v dist_tensor) pydict \<Rightarrow>
   ('blk \<Rightarrow> (string, 'v matrix) pydict \<Rightarrow> (string, 'v matrix) pydict) \<Rightarrow>
   (ids maybe_dict \<times> ids maybe_dict \<times> 'blk list) list \<Rightarrow>
   (string, 'v dist_tensor) pydict \<Rightarrow> py_error + (string, 'v dist_tensor) pydict" where
  "infer_batches g x layer [] y = Inr y"
| "infer_batches g x layer (batch # rest) y =
     (case infer_batch g x layer batch y of
        Inl e \<Rightarrow> Inl e
      | Inr y' \<Rightarrow> infer_batches g x layer rest y')"

text \<open>
  During a pass the tensors of \<open>y\<close> are held by value; what the pass has written into
  them is in the store, under their names, when the pass is over.
\<close>

definition write_back ::
  "dist_graph \<Rightarrow> (string, 'v dist_tensor) pydict \<Rightarrow> string \<Rightarrow> 'v kvstore \<Rightarrow> 'v kvstore" where
  "write_back g y name store =
     fold (\<lambda>k s. case map_of y k of None \<Rightarrow> s | Some t \<Rightarrow> AList.update (k, name) t s)
       (g_ntypes g) store"

text \<open>
  \<^verbatim>\<open>
      x = node_feats
      with th.no_grad():
          for i, layer in enumerate(gnn_encoder.layers):
              y = ...
              for iter_l, (input_nodes, output_nodes, blocks) in enumerate(dataloader):
                  ...
              x = y
              th.distributed.barrier()
      return y
  \<close>
  \<open>y\<close> is unbound until the first pass of the loop, so returning it after no pass raises
  \<open>UnboundLocalError\<close>. The result of a call that returns is \<open>y\<close> and the store it
  leaves; the store after a call that raises is not part of the model.
\<close>

fun infer_layers ::
  "dist_graph \<Rightarrow> ('blk, 'v::zero) gnn_encoder \<Rightarrow> 'blk sampling \<Rightarrow>
   (nat \<times> ('blk \<Rightarrow> (string, 'v matrix) pydict \<Rightarrow> (string, 'v matrix) pydict)) list \<Rightarrow>
   (string, 'v dist_tensor) pydict \<Rightarrow> (string, 'v dist_tensor) pydict option \<Rightarrow>
   'v kvstore \<Rightarrow> py_error + ((string, 'v dist_tensor) pydict option \<times> 'v kvstore)" where
  "infer_layers g gnn_encoder S [] x y store = Inr (y, store)"
| "infer_layers g gnn_encoder S ((i, layer) # rest) x y store =
     (case alloc_outputs g gnn_encoder i store of
        Inl e \<Rightarrow> Inl e
      | Inr (y0, store') \<Rightarrow>
          (case infer_batches g x layer (data_loader S i (infer_nodes_of g S)) y0 of
             Inl e \<Rightarrow> Inl e
           | Inr y' \<Rightarrow>
               infer_layers g gnn_encoder S rest y' (Some y')
                 (write_back g y' (''h-'' @ str_nat i) store')))"

definition dist_inference ::
  "dist_graph \<Rightarrow> ('blk, 'v::zero) gnn_encoder \<Rightarrow> (string, 'v dist_tensor) pydict \<Rightarrow>
   'blk sampling \<Rightarrow> 'v kvstore \<Rightarrow>
   py_error + ((string, 'v dist_tensor) pydict \<times> 'v kvstore)" where
  "dist_inference g gnn_encoder node_feats S store =
     (case infer_layers g gnn_encoder S (List.enumerate 0 (enc_layers gnn_encoder))
             node_feats None store of
        Inl e \<Rightarrow> Inl e
      | Inr (None, store') \<Rightarrow> Inl UnboundLocalError
      | Inr (Some y, store') \<Rightarrow> Inr (y, store'))"

text \<open>The invariant of a pass: every node type of the graph has its tensor in \<open>y\<close>,
  with one row per node of the type and the width of the layer.\<close>

definition shaped :: "dist_graph \<Rightarrow> nat \<Rightarrow> (string, 'v dist_tensor) pydict \<Rightarrow> bool" where
  "shaped g w y =
     (\<forall>k \<in> set (g_ntypes g). \<exists>t. map_of y k = Some t
        \<and> dt_shape t = (g_number_of_nodes g k, w)
        \<and> length (dt_rows t) = g_number_of_nodes g k)"

text \<open>What holds of the store: a shape, once stored under a key, stays (\<open>shapes_kept\<close>);
  the tensors of pass \<open>i\<close> are stored for every node type with the shape of the pass
  (\<open>pass_stored\<close>); and every tensor of \<open>y\<close> has the shape \<open>f\<close> gives for its node type
  and a stored tensor of that shape under its name (\<open>backed\<close>).\<close>

definition shapes_kept :: "'v kvstore \<Rightarrow> 'v kvstore \<Rightarrow> bool" where
  "shapes_kept s s' =
     (\<forall>key t. map_of s key = Some t \<longrightarrow>
        (\<exists>t'. map_of s' key = Some t' \<and> dt_shape t' = dt_shape t))"

definition pass_stored ::
  "dist_graph \<Rightarrow> ('blk, 'v) gnn_encoder \<Rightarrow> nat \<Rightarrow> 'v kvstore \<Rightarrow> bool" where
  "pass_stored g gnn_encoder i store =
     (\<forall>k \<in> set (g_ntypes g). \<exists>t. map_of store (k, ''h-'' @ str_nat i) = Some t
        \<and> dt_shape t = (g_number_of_nodes g k, layer_width gnn_encoder i))"

definition backed ::
  "(string \<Rightarrow> nat \<times> nat) \<Rightarrow> string \<Rightarrow> (string, 'v dist_tensor) pydict \<Rightarrow> 'v kvstore \<Rightarrow> bool" where
  "backed f name y store =
     (\<forall>k t. map_of y k = Some t \<longrightarrow>
        dt_shape t = f k
        \<and> (\<exists>t0. map_of store (k, name) = Some t0 \<and> dt_shape t0 = f k))"

text \<open>A graph with two node types for concrete runs of \<open>dist_inference\<close>: a block
  lists the number of output rows per node type, a layer of width \<open>w\<close> returns that many
  rows of ones for every type of the block, and each pass has one mini-batch whose
  output nodes are of type \<open>n0\<close> and one whose output nodes are of type \<open>n1\<close>.\<close>

definition demo_dist_graph :: dist_graph where
  "demo_dist_graph =
     \<lparr>g_ntypes = [''n0'', ''n1''],
      g_number_of_nodes = (\<lambda>k. if k = ''n0'' then 2 else if k = ''n1'' then 3 else 0)\<rparr>"

definition demo_homo_graph :: dist_graph where
  "demo_homo_graph = \<lparr>g_ntypes = [''n0''], g_number_of_nodes = (\<lambda>k. 2)\<rparr>"

definition demo_layer ::
  "nat \<Rightarrow> (string \<times> nat) list \<Rightarrow> (string, int matrix) pydict \<Rightarrow> (string, int matrix) pydict" where
  "demo_layer w block h = map (\<lambda>(k, n). (k, replicate n (replicate w 1))) block"

definition demo_encoder :: "((string \<times> nat) list, int) gnn_encoder" where
  "demo_encoder = \<lparr>enc_h_dims = 2, enc_out_dims = 1, enc_layers = [demo_layer 2, demo_layer 1]\<rparr>"

definition demo_sampling :: "(string \<times> nat) list sampling" where
  "demo_sampling =
     \<lparr>node_split = (\<lambda>ntype n. [0..<n]),
      data_loader = (\<lambda>i infer_nodes.
        [(IsDict infer_nodes, IsDict [(''n0'', [0, 1])], [[(''n0'', 2), (''n1'', 3)]]),
         (IsDict infer_nodes, IsDict [(''n1'', [0, 1, 2])], [[(''n0'', 2), (''n1'', 3)]])])\<rparr>"

definition demo_node_feats :: "(string, int dist_tensor) pydict" where
  "demo_node_feats =
     [(''n0'', \<lparr>dt_width = 1, dt_name = ''feat'', dt_rows = [[5], [6]]\<rparr>),
      (''n1'', \<lparr>dt_width = 1, dt_name = ''feat'', dt_rows = [[7], [8], [9]]\<rparr>)]"

section \<open>Properties of \<open>get_id\<close>\<close>

lemma update_absent_append:
  "map_of d k = None \<Longrightarrow> AList.update k v d = d @ [(k, v)]"
  by (induction d) (auto split: if_splits)

lemma dense_ids_values_distinct:
  assumes "dense_ids d"
  shows "distinct (map snd d)"
proof -
  have "card (set (map snd d)) = card (set (map int [0..<length d]))"
    using assms by (simp add: dense_ids_def)
  also have "\<dots> = length (map int [0..<length d])"
    by (intro distinct_card) (simp add: distinct_map)
  finally have "card (set (map snd d)) = length (map snd d)"
    by simp
  then show ?thesis
    by (rule card_distinct)
qed

lemma dense_ids_append:
  assumes "dense_ids d" and "map_of d key = None"
  shows "dense_ids (d @ [(key, int (length d))])"
proof -
  have "key \<notin> fst ` set d"
    using assms(2) by (simp add: map_of_eq_None_iff)
  moreover have "set (map int [0..<Suc (length d)]) = insert (int (length d)) (set (map int [0..<length d]))"
    by auto
  ultimately show ?thesis
    using assms(1) by (simp add: dense_ids_def dict_ok_def)
qed

lemma get_id_present:
  "map_of d key = Some nid \<Longrightarrow> get_id d key = ((nid, False), d)"
  by (simp add: get_id_def)

lemma get_id_absent:
  "map_of d key = None \<Longrightarrow>
     get_id d key = ((int (length d), True), d @ [(key, int (length d))])"
  by (simp add: get_id_def Let_def update_absent_append)

lemma get_id_dense:
  "dense_ids d \<Longrightarrow> dense_ids (snd (get_id d key))"
  by (cases "map_of d key") (simp_all add: get_id_absent get_id_present dense_ids_append)

lemma dense_ids_inj:
  assumes "dense_ids d" and "map_of d k1 = Some v" and "map_of d k2 = Some v"
  shows "k1 = k2"
proof -
  have dv: "distinct (map snd d)"
    using assms(1) by (rule dense_ids_values_distinct)
  have m1: "(k1, v) \<in> set d" and m2: "(k2, v) \<in> set d"
    using assms(2,3) by (auto dest: map_of_SomeD)
  from dv m1 m2 show ?thesis
    by (metis distinct_map inj_on_def snd_conv fst_conv)
qed

text \<open>
  Claim C10. On a dictionary whose values are exactly \<open>0, ..., len - 1\<close>, \<open>get_id\<close>
  returns the stored ID and \<open>False\<close> and leaves the dictionary as it is when the key is
  present; otherwise it returns the previous size and \<open>True\<close> and the dictionary gains
  exactly that one entry. In both cases the values afterwards are again
  \<open>0, ..., len - 1\<close>, and two keys with the same ID are the same key.
\<close>

theorem get_id_dense_assignment:
  assumes "dense_ids d"
  shows "(\<forall>nid. map_of d key = Some nid \<longrightarrow> get_id d key = ((nid, False), d))
       \<and> (map_of d key = None \<longrightarrow>
            fst (get_id d key) = (int (length d), True)
          \<and> snd (get_id d key) = d @ [(key, int (length d))]
          \<and> map_of (snd (get_id d key)) = (map_of d)(key \<mapsto> int (length d)))
       \<and> dense_ids (snd (get_id d key))
       \<and> (\<forall>k1 k2 v. map_of (snd (get_id d key)) k1 = Some v
                  \<and> map_of (snd (get_id d key)) k2 = Some v \<longrightarrow> k1 = k2)"
proof (intro conjI allI impI)
  fix nid assume "map_of d key = Some nid"
  then show "get_id d key = ((nid, False), d)"
    by (rule get_id_present)
next
  assume "map_of d key = None"
  then show "fst (get_id d key) = (int (length d), True)"
    by (simp add: get_id_absent)
next
  assume "map_of d key = None"
  then show "snd (get_id d key) = d @ [(key, int (length d))]"
    by (simp add: get_id_absent)
next
  assume "map_of d key = None"
  then show "map_of (snd (get_id d key)) = (map_of d)(key \<mapsto> int (length d))"
    by (simp add: get_id_def Let_def update_conv')
next
  show "dense_ids (snd (get_id d key))"
    using assms by (rule get_id_dense)
next
  fix k1 k2 v
  assume "map_of (snd (get_id d key)) k1 = Some v \<and> map_of (snd (get_id d key)) k2 = Some v"
  with get_id_dense [OF assms, of key] show "k1 = k2"
    by (blast intro: dense_ids_inj)
qed

theorem get_id_dense_assignment_witness:
  "dense_ids [(''a'', 0), (''b'', 1)]
   \<and> get_id [(''a'', 0), (''b'', 1)] ''b'' = ((1, False), [(''a'', 0), (''b'', 1)])
   \<and> get_id [(''a'', 0), (''b'', 1)] ''c'' = ((2, True), [(''a'', 0), (''b'', 1), (''c'', 2)])
   \<and> dense_ids (snd (get_id [(''a'', 0), (''b'', 1)] ''c''))"
proof -
  have h: "dense_ids [(''a'', 0), (''b'', 1)]"
    by (simp add: dense_ids_def dict_ok_def)
  have b: "get_id [(''a'', 0), (''b'', 1)] ''b'' = ((1, False), [(''a'', 0), (''b'', 1)])"
    by (simp add: get_id_def)
  have c: "get_id [(''a'', 0), (''b'', 1)] ''c'' = ((2, True), [(''a'', 0), (''b'', 1), (''c'', 2)])"
    by (simp add: get_id_def)
  have "dense_ids (snd (get_id [(''a'', 0), (''b'', 1)] ''c''))"
    using get_id_dense_assignment [OF h, of "''c''"] by (rule conjunct1 [OF conjunct2 [OF conjunct2]])
  with h b c show ?thesis
    by (intro conjI)
qed

section \<open>Properties of the communication primitives\<close>











text \<open>
  Claim C4. With \<open>world_size = 1\<close> and \<open>rank = 0\<close>, both all-to-all-v primitives put
  the first input tensor into slot 0 of the output list, with the shape and the values
  it had (the gloo variant moves it to the CPU), send and receive nothing, reach the
  barrier and return; and \<open>all_reduce_sum\<close> over the one rank leaves its tensor as it was.
\<close>

theorem single_rank_output_equals_input:
  "alltoallv_cpu net 0 1 (out # outs) (t # ts) = (Returned, (to_device CPU t # outs, [Barrier]))
   \<and> t_values (to_device CPU t) = t_values t
   \<and> t_shape (to_device CPU t) = t_shape t
   \<and> alltoallv_nccl net 0 1 (out # outs) (t # ts) = (Returned, (t # outs, [Barrier]))
   \<and> all_reduce_sum [r] = [r]"
  by (simp add: alltoallv_cpu_def alltoallv_nccl_def alltoallv_def to_device_def
      all_reduce_sum_def dist_all_reduce_def)

section \<open>Properties of the edge-prediction trainer\<close>

lemma bk_ext_refl: "bk_ext st st"
  by (simp add: bk_ext_def)

lemma bk_ext_trans: "bk_ext a b \<Longrightarrow> bk_ext b c \<Longrightarrow> bk_ext a c"
  unfolding bk_ext_def
  apply clarify
  subgoal for evs evs'
    by (rule exI [of _ "evs @ evs'"]) auto
  done

lemma tr_ext_trans: "tr_ext a b \<Longrightarrow> tr_ext b c \<Longrightarrow> tr_ext a c"
  unfolding tr_ext_def
  apply clarify
  subgoal for evs evs'
    by (rule exI [of _ "evs @ evs'"]) auto
  done

lemma no_training_after_stop_append:
  assumes "no_training_after_stop tr" and "\<forall>e \<in> set evs. \<not> is_training_event e"
  shows "no_training_after_stop (tr @ evs)"
  unfolding no_training_after_stop_def
proof (intro allI impI)
  fix pre post
  assume eq: "tr @ evs = pre @ EvDoEarlyStop True # post"
  then consider (left) us where "tr = pre @ us" "us @ evs = EvDoEarlyStop True # post"
    | (right) us where "tr @ us = pre" "evs = us @ EvDoEarlyStop True # post"
    by (auto simp: append_eq_append_conv2)
  then show "\<forall>e \<in> set post. \<not> is_training_event e"
  proof cases
    case left
    show ?thesis
    proof (cases us)
      case Nil
      with left assms(2) show ?thesis by auto
    next
      case (Cons u us')
      with left have "tr = pre @ EvDoEarlyStop True # us'" "post = us' @ evs"
        by auto
      with assms show ?thesis
        by (auto simp: no_training_after_stop_def)
    qed
  next
    case right
    with assms(2) show ?thesis by auto
  qed
qed

lemma no_stop_no_training_after_stop:
  "EvDoEarlyStop True \<notin> set tr \<Longrightarrow> no_training_after_stop tr"
  by (auto simp: no_training_after_stop_def)

lemma stop_inv_bk_ext: "stop_inv st \<Longrightarrow> bk_ext st st' \<Longrightarrow> stop_inv st'"
  unfolding stop_inv_def bk_ext_def
  by (auto intro: no_training_after_stop_append)

lemma stop_inv_tr_ext:
  "stop_inv st \<Longrightarrow> \<not> early_stop st \<Longrightarrow> tr_ext st st' \<Longrightarrow> stop_inv st' \<and> \<not> early_stop st'"
  unfolding stop_inv_def tr_ext_def
  by (auto intro: no_stop_no_training_after_stop)

lemma bk_ext_emit: "\<not> is_training_event e \<Longrightarrow> e \<noteq> EvDoEarlyStop True \<Longrightarrow> bk_ext st (emit e st)"
  by (simp add: bk_ext_def emit_def)

lemma tr_ext_emit: "e \<noteq> EvDoEarlyStop True \<Longrightarrow> tr_ext st (emit e st)"
  by (simp add: tr_ext_def emit_def)

lemma trainer_eval_bk_ext: "bk_ext st (res_state (trainer_eval T a b mb n st))"
  by (auto simp: trainer_eval_def res_state_def bk_ext_def emit_def Let_def
      split: option.splits prod.splits sum.splits if_splits)

lemma evaluate_and_check_stop_bk_ext:
  "bk_ext st (res_state (evaluate_and_check_stop T A ee st))"
proof (cases "evaluator T")
  case None
  then show ?thesis
    by (simp add: evaluate_and_check_stop_def res_state_def bk_ext_refl)
next
  case (Some ev)
  obtain go w1 where d: "do_eval ev (world st) (total_steps st) ee = (go, w1)"
    by (cases "do_eval ev (world st) (total_steps st) ee")
  let ?st1 = "emit (EvDoEval (total_steps st) ee go) (st\<lparr>world := w1\<rparr>)"
  have e1: "bk_ext st ?st1"
    by (simp add: bk_ext_def emit_def)
  show ?thesis
  proof (cases go)
    case False
    with Some d e1 show ?thesis
      by (simp add: evaluate_and_check_stop_def res_state_def)
  next
    case True
    let ?r = "trainer_eval T (val_loader A) (test_loader A) (mini_batch_infer A) (total_steps ?st1) ?st1"
    have e2: "bk_ext ?st1 (res_state ?r)"
      by (rule trainer_eval_bk_ext)
    show ?thesis
    proof (cases ?r)
      case (Raise e st2)
      with Some d True e1 e2 show ?thesis
        by (auto simp: evaluate_and_check_stop_def res_state_def Let_def intro: bk_ext_trans)
    next
      case (Ok v st2)
      obtain stop w3 where s: "do_early_stop ev (world st2) v = (stop, w3)"
        by (cases "do_early_stop ev (world st2) v")
      let ?st3 = "emit (EvDoEarlyStop stop) (st2\<lparr>world := w3\<rparr>)"
      have "bk_ext st2 (if stop then ?st3\<lparr>early_stop := True\<rparr> else ?st3)"
        by (simp add: bk_ext_def emit_def)
      moreover have "bk_ext st st2"
        using e1 e2 Ok by (auto simp: res_state_def intro: bk_ext_trans)
      ultimately have "bk_ext st (if stop then ?st3\<lparr>early_stop := True\<rparr> else ?st3)"
        by (rule bk_ext_trans [rotated])
      with Some d True Ok s show ?thesis
        by (simp add: evaluate_and_check_stop_def res_state_def Let_def)
    qed
  qed
qed

lemma save_per_iters_bk_ext: "bk_ext st (res_state (save_per_iters T A epoch i v st))"
  by (auto simp: save_per_iters_def res_state_def bk_ext_def emit_def split: option.splits)

lemma gather_batch_tr_ext: "tr_ext st (res_state (gather_batch L batch st))"
  by (auto simp: gather_batch_def res_state_def tr_ext_def emit_def Let_def
      split: prod.splits sum.splits option.splits)

lemma train_step_stop_inv:
  assumes "stop_inv st" and "\<not> early_stop st"
  shows "stop_inv (res_state (train_step T L A epoch i batch st))"
proof -
  let ?st0 = "emit (EvTrainStep epoch i) (st\<lparr>total_steps := total_steps st + 1\<rparr>)"
  have "tr_ext st ?st0"
    by (simp add: tr_ext_def emit_def)
  then have t1: "tr_ext st (res_state (gather_batch L batch ?st0))"
    using gather_batch_tr_ext by (rule tr_ext_trans)
  show ?thesis
  proof (cases "gather_batch L batch ?st0")
    case (Raise e st1)
    with t1 assms show ?thesis
      by (auto simp: train_step_def train_step_body_def res_state_def Let_def
          dest: stop_inv_tr_ext)
  next
    case (Ok x st1)
    obtain inp input_feats lbl where x: "x = (inp, input_feats, lbl)"
      by (cases x)
    obtain input_nodes batch_graph blocks where b: "batch = (input_nodes, batch_graph, blocks)"
      by (cases batch)
    let ?st2 = "emit (EvModelStep (total_steps st1))
                  (st1\<lparr>world := model_step T (world st1) blocks batch_graph input_feats inp lbl\<rparr>)"
    have "tr_ext st1 ?st2"
      by (simp add: tr_ext_def emit_def)
    with t1 Ok have "tr_ext st ?st2"
      by (auto simp: res_state_def intro: tr_ext_trans)
    with assms have i2: "stop_inv ?st2"
      by (blast dest: stop_inv_tr_ext)
    have body: "train_step_body T L A epoch i batch st = evaluate_and_check_stop T A False ?st2"
      using Ok x b by (simp add: train_step_body_def Let_def)
    have i3: "stop_inv (res_state (evaluate_and_check_stop T A False ?st2))"
      using i2 evaluate_and_check_stop_bk_ext by (rule stop_inv_bk_ext)
    show ?thesis
    proof (cases "evaluate_and_check_stop T A False ?st2")
      case (Raise e st3)
      with body i3 show ?thesis
        by (simp add: train_step_def res_state_def)
    next
      case ok3: (Ok v st3)
      with i3 have "stop_inv st3"
        by (simp add: res_state_def)
      then have "stop_inv (res_state (save_per_iters T A epoch i v st3))"
        using save_per_iters_bk_ext by (rule stop_inv_bk_ext)
      with body ok3 show ?thesis
        by (simp add: train_step_def)
    qed
  qed
qed

lemma fit_steps_stop_inv:
  "stop_inv st \<Longrightarrow> \<not> early_stop st \<Longrightarrow> stop_inv (res_state (fit_steps T L A epoch bs st))"
proof (induction bs arbitrary: st)
  case Nil
  then show ?case by (simp add: res_state_def)
next
  case (Cons b bs)
  obtain i batch where b: "b = (i, batch)"
    by (cases b)
  from Cons.prems have s: "stop_inv (res_state (train_step T L A epoch i batch st))"
    by (rule train_step_stop_inv)
  show ?case
  proof (cases "train_step T L A epoch i batch st")
    case (Raise e st1)
    with s b show ?thesis by (simp add: res_state_def)
  next
    case (Ok u st1)
    with s have "stop_inv st1" by (simp add: res_state_def)
    with Ok b Cons.IH [of st1] show ?thesis
      by (simp add: res_state_def)
  qed
qed

lemma fit_epoch_stop_inv:
  assumes "stop_inv st" and "\<not> early_stop st"
  shows "stop_inv (res_state (fit_epoch T L A epoch st))"
proof -
  let ?st0 = "emit (EvEpochStart epoch) st"
  let ?r = "fit_steps T L A epoch (List.enumerate 0 (batches L epoch)) ?st0"
  have "tr_ext st ?st0"
    by (simp add: tr_ext_emit)
  with assms have "stop_inv ?st0 \<and> \<not> early_stop ?st0"
    by (rule stop_inv_tr_ext)
  then have s1: "stop_inv (res_state ?r)"
    by (simp add: fit_steps_stop_inv)
  show ?thesis
  proof (cases ?r)
    case (Raise e st1)
    with s1 show ?thesis by (simp add: fit_epoch_def res_state_def)
  next
    case (Ok u st1)
    with s1 have "stop_inv st1" by (simp add: res_state_def)
    then have "stop_inv (emit EvBarrier st1)"
      by (rule stop_inv_bk_ext) (simp add: bk_ext_emit)
    then have s2: "stop_inv (res_state (evaluate_and_check_stop T A True (emit EvBarrier st1)))"
      using evaluate_and_check_stop_bk_ext by (rule stop_inv_bk_ext)
    show ?thesis
    proof (cases "evaluate_and_check_stop T A True (emit EvBarrier st1)")
      case (Raise e st2)
      with Ok s2 show ?thesis by (simp add: fit_epoch_def res_state_def)
    next
      case ok2: (Ok v st2)
      with s2 have "stop_inv st2" by (simp add: res_state_def)
      moreover have "bk_ext st2 (emit EvBarrier (emit (EvSaveTopK epoch None v)
               (st2\<lparr>world := save_topk_models T (world st2) epoch None v (save_model_path A)\<rparr>)))"
        by (simp add: bk_ext_def emit_def)
      ultimately show ?thesis
        using Ok ok2 by (auto simp: fit_epoch_def res_state_def dest: stop_inv_bk_ext)
    qed
  qed
qed

lemma fit_epochs_stop_inv:
  "stop_inv st \<Longrightarrow> \<not> early_stop st \<Longrightarrow> stop_inv (res_state (fit_epochs T L A es st))"
proof (induction es arbitrary: st)
  case Nil
  then show ?case by (simp add: res_state_def)
next
  case (Cons epoch es)
  from Cons.prems have s: "stop_inv (res_state (fit_epoch T L A epoch st))"
    by (rule fit_epoch_stop_inv)
  show ?case
  proof (cases "fit_epoch T L A epoch st")
    case (Raise e st1)
    with s show ?thesis by (simp add: res_state_def)
  next
    case (Ok u st1)
    with s have "stop_inv st1" by (simp add: res_state_def)
    with Ok Cons.IH [of st1] show ?thesis
      by (simp add: res_state_def)
  qed
qed

lemma fit_start_stop_inv: "stop_inv (fit_start w) \<and> \<not> early_stop (fit_start w)"
  by (simp add: stop_inv_def fit_start_def no_training_after_stop_def)

lemma fit_train_stop_inv: "stop_inv (res_state (fit_train T L n A w))"
proof -
  have s: "stop_inv (res_state (fit_epochs T L A [0..<nat n] (fit_start w)))"
    by (intro fit_epochs_stop_inv) (simp_all add: fit_start_stop_inv)
  show ?thesis
  proof (cases "fit_epochs T L A [0..<nat n] (fit_start w)")
    case (Raise e st)
    with s show ?thesis by (simp add: fit_train_def res_state_def)
  next
    case (Ok u st)
    with s have "stop_inv st" by (simp add: res_state_def)
    moreover have "bk_ext st (emit EvLogParams st)"
      by (simp add: bk_ext_emit)
    ultimately show ?thesis
      using Ok by (auto simp: fit_train_def res_state_def dest: stop_inv_bk_ext)
  qed
qed

lemma length_etypes_one:
  "length (bg_etypes bg) = 1 \<Longrightarrow> bg_canonical_etypes bg = [bg_canonical_etypes bg ! 0]"
  by (cases "bg_canonical_etypes bg") (auto simp: bg_etypes_def)

lemma gather_batch_trace:
  "\<exists>gevs. trace (res_state (gather_batch L (inp, bg, blocks) st)) = trace st @ gevs
     \<and> (\<forall>c sd. EvGetLabels c sd \<in> set gevs \<longrightarrow>
           bg_canonical_etypes bg = [c] \<and> bg_edge_ids bg (fst (snd c)) = Some sd)
     \<and> (\<forall>d f sd. length (bg_etypes bg) = 1 \<and> wrap_input_nodes bg inp = Inr d
           \<and> get_node_feats L d = Inr f
           \<and> bg_edge_ids bg (fst (snd (bg_canonical_etypes bg ! 0))) = Some sd \<longrightarrow>
           EvGetLabels (bg_canonical_etypes bg ! 0) sd \<in> set gevs)"
  using length_etypes_one [of bg]
  by (auto simp: gather_batch_def res_state_def emit_def Let_def
      split: sum.splits option.splits)
    (metis fst_conv snd_conv)+

lemma gather_batch_not_one_etype:
  assumes "length (bg_etypes bg) \<noteq> 1"
  shows "\<exists>e st'. gather_batch L (inp, bg, blocks) st = Raise e st'
     \<and> (e = AssertionError
        \<or> (\<exists>d. wrap_input_nodes bg inp = Inr d \<and> get_node_feats L d = Inl e))
     \<and> (\<exists>gevs. trace st' = trace st @ gevs \<and> (\<forall>c sd. EvGetLabels c sd \<notin> set gevs))"
  using assms
  by (auto simp: gather_batch_def emit_def Let_def wrap_input_nodes_def
      split: sum.splits option.splits maybe_dict.splits)

lemma train_step_trace:
  "\<exists>bevs. trace (res_state (train_step T L A epoch i batch st))
         = trace (res_state (gather_batch L batch
               (emit (EvTrainStep epoch i) (st\<lparr>total_steps := total_steps st + 1\<rparr>)))) @ bevs
       \<and> (\<forall>c sd. EvGetLabels c sd \<notin> set bevs)"
proof -
  let ?st0 = "emit (EvTrainStep epoch i) (st\<lparr>total_steps := total_steps st + 1\<rparr>)"
  show ?thesis
  proof (cases "gather_batch L batch ?st0")
    case (Raise e st1)
    then show ?thesis
      by (simp add: train_step_def train_step_body_def res_state_def Let_def)
  next
    case (Ok x st1)
    obtain inp input_feats lbl where x: "x = (inp, input_feats, lbl)"
      by (cases x)
    obtain input_nodes batch_graph blocks where b: "batch = (input_nodes, batch_graph, blocks)"
      by (cases batch)
    let ?st2 = "emit (EvModelStep (total_steps st1))
                  (st1\<lparr>world := model_step T (world st1) blocks batch_graph input_feats inp lbl\<rparr>)"
    let ?r3 = "evaluate_and_check_stop T A False ?st2"
    have body: "train_step_body T L A epoch i batch st = ?r3"
      using Ok x b by (simp add: train_step_body_def Let_def)
    have e3: "bk_ext ?st2 (res_state ?r3)"
      by (rule evaluate_and_check_stop_bk_ext)
    have "bk_ext ?st2 (res_state (train_step T L A epoch i batch st))"
    proof (cases ?r3)
      case (Raise e st3)
      with body e3 show ?thesis
        by (simp add: train_step_def res_state_def)
    next
      case ok3: (Ok v st3)
      with e3 have "bk_ext ?st2 st3"
        by (simp add: res_state_def)
      then have "bk_ext ?st2 (res_state (save_per_iters T A epoch i v st3))"
        using save_per_iters_bk_ext by (rule bk_ext_trans)
      with body ok3 show ?thesis
        by (simp add: train_step_def)
    qed
    then obtain evs where
      "trace (res_state (train_step T L A epoch i batch st)) = trace ?st2 @ evs"
      "\<forall>e \<in> set evs. \<not> is_training_event e"
      by (auto simp: bk_ext_def)
    then have "trace (res_state (train_step T L A epoch i batch st))
                 = trace st1 @ (EvModelStep (total_steps st1) # evs)
               \<and> (\<forall>c sd. EvGetLabels c sd \<notin> set (EvModelStep (total_steps st1) # evs))"
      by (auto simp: emit_def)
    with Ok show ?thesis
      unfolding res_state_def by (simp only: res.case) blast
  qed
qed

lemma train_step_raises_with_gather:
  "gather_batch L batch (emit (EvTrainStep epoch i) (st\<lparr>total_steps := total_steps st + 1\<rparr>))
     = Raise e st1 \<Longrightarrow> train_step T L A epoch i batch st = Raise e st1"
  by (simp add: train_step_def train_step_body_def Let_def)

lemma trainer_eval_total_steps:
  "total_steps (res_state (trainer_eval T a b mb n st)) = total_steps st"
  by (auto simp: trainer_eval_def res_state_def emit_def Let_def
      split: option.splits prod.splits sum.splits if_splits)

lemma evaluate_and_check_stop_total_steps:
  "total_steps (res_state (evaluate_and_check_stop T A ee st)) = total_steps st"
proof (cases "evaluator T")
  case None
  then show ?thesis
    by (simp add: evaluate_and_check_stop_def res_state_def)
next
  case (Some ev)
  obtain go w1 where d: "do_eval ev (world st) (total_steps st) ee = (go, w1)"
    by (cases "do_eval ev (world st) (total_steps st) ee")
  let ?st1 = "emit (EvDoEval (total_steps st) ee go) (st\<lparr>world := w1\<rparr>)"
  let ?r = "trainer_eval T (val_loader A) (test_loader A) (mini_batch_infer A) (total_steps ?st1) ?st1"
  have t: "total_steps (res_state ?r) = total_steps st"
    by (simp add: trainer_eval_total_steps) (simp add: emit_def)
  show ?thesis
  proof (cases go)
    case False
    with Some d show ?thesis
      by (simp add: evaluate_and_check_stop_def res_state_def emit_def)
  next
    case True
    show ?thesis
    proof (cases ?r)
      case (Raise e st2)
      with Some d True t show ?thesis
        by (simp add: evaluate_and_check_stop_def res_state_def)
    next
      case (Ok v st2)
      with Some d True t show ?thesis
        by (auto simp: evaluate_and_check_stop_def res_state_def emit_def Let_def
            split: prod.splits)
    qed
  qed
qed

lemma gather_batch_total_steps:
  "total_steps (res_state (gather_batch L batch st)) = total_steps st"
  by (auto simp: gather_batch_def res_state_def emit_def Let_def
      split: prod.splits sum.splits option.splits)

lemma train_step_body_total_steps:
  "total_steps (res_state (train_step_body T L A epoch i batch st)) = Suc (total_steps st)"
proof -
  let ?st0 = "emit (EvTrainStep epoch i) (st\<lparr>total_steps := total_steps st + 1\<rparr>)"
  have g: "total_steps (res_state (gather_batch L batch ?st0)) = Suc (total_steps st)"
    by (simp add: gather_batch_total_steps) (simp add: emit_def)
  show ?thesis
  proof (cases "gather_batch L batch ?st0")
    case (Raise e st1)
    with g show ?thesis
      by (simp add: train_step_body_def res_state_def Let_def)
  next
    case (Ok x st1)
    obtain inp input_feats lbl where x: "x = (inp, input_feats, lbl)"
      by (cases x)
    obtain input_nodes batch_graph blocks where b: "batch = (input_nodes, batch_graph, blocks)"
      by (cases batch)
    let ?st2 = "emit (EvModelStep (total_steps st1))
                  (st1\<lparr>world := model_step T (world st1) blocks batch_graph input_feats inp lbl\<rparr>)"
    have "train_step_body T L A epoch i batch st = evaluate_and_check_stop T A False ?st2"
      using Ok x b by (simp add: train_step_body_def Let_def)
    moreover have "total_steps ?st2 = Suc (total_steps st)"
      using Ok g by (simp add: res_state_def emit_def)
    ultimately show ?thesis
      by (simp add: evaluate_and_check_stop_total_steps)
  qed
qed

text \<open>Unfolding a concrete run.\<close>

lemmas demo_defs = demo_trainer_def demo_loader_def demo_evaluator_def demo_graph_def
  demo_graph_two_def demo_loader_no_feats_def demo_loader_no_labels_def

lemmas run_defs = fit_def fit_train_def fit_start_def fit_epoch_def check_configuration_def
  train_step_def train_step_body_def gather_batch_def wrap_input_nodes_def bg_etypes_def
  save_per_iters_def evaluate_and_check_stop_def trainer_eval_def emit_def
  enumerate_eq_zip upt_conv_Cons Let_def res_state_def numeral_3_eq_3

text \<open>
  Claim C3. In every run of \<open>fit\<close>, whether it returns or raises, no training event
  (no start of an epoch, no training step, none of a step's feature gathering, label
  gathering or model update) comes after an answer \<open>True\<close> of \<open>do_early_stop\<close>, be it
  given after a step or at the end of an epoch.
\<close>

theorem fit_early_stop:
  "no_training_after_stop (trace (res_state (fit T L n val_ld test_ld mb path spi w)))"
proof (cases "check_configuration (evaluator T) val_ld")
  case (Inl e)
  then show ?thesis
    using fit_start_stop_inv [of w] by (auto simp: fit_def res_state_def stop_inv_def)
next
  case (Inr u)
  let ?A = "\<lparr>val_loader = val_ld, test_loader = test_ld, mini_batch_infer = mb,
             save_model_path = path, save_model_per_iters = spi\<rparr>"
  have "stop_inv (res_state (fit_train T L n ?A w))"
    by (rule fit_train_stop_inv)
  with Inr show ?thesis
    by (simp add: fit_def stop_inv_def)
qed

theorem fit_early_stop_witness:
  "trace (res_state (fit demo_trainer demo_loader 2 (Some ()) (Some ()) True None (Some 1) 0))
     = [EvEpochStart 0, EvTrainStep 0 0, EvGetNodeFeats [(''n0'', [0])],
        EvGetLabels (''n0'', ''r'', ''n0'') [0, 1], EvModelStep 1,
        EvDoEval 1 False True, EvEval 1, EvDoEarlyStop False,
        EvTrainStep 0 1, EvGetNodeFeats [(''n0'', [0])],
        EvGetLabels (''n0'', ''r'', ''n0'') [0, 1], EvModelStep 2,
        EvDoEval 2 False True, EvEval 2]
       @ EvDoEarlyStop True
       # [EvSaveTopK 0 (Some 1) (Some 2), EvBarrier, EvDoEval 2 True True,
          EvEval 2, EvDoEarlyStop True, EvSaveTopK 0 None (Some 2), EvBarrier, EvLogParams]
   \<and> filter is_training_event
        [EvSaveTopK 0 (Some 1) (Some 2), EvBarrier, EvDoEval 2 True True,
         EvEval 2, EvDoEarlyStop True, EvSaveTopK 0 None (Some (2::int)), EvBarrier, EvLogParams]
       = []"
proof -
  let ?run = "fit demo_trainer demo_loader 2 (Some ()) (Some ()) True None (Some 1) 0"
  let ?pre = "[EvEpochStart 0, EvTrainStep 0 0, EvGetNodeFeats [(''n0'', [0])],
        EvGetLabels (''n0'', ''r'', ''n0'') [0, 1], EvModelStep 1,
        EvDoEval 1 False True, EvEval 1, EvDoEarlyStop False,
        EvTrainStep 0 1, EvGetNodeFeats [(''n0'', [0])],
        EvGetLabels (''n0'', ''r'', ''n0'') [0, 1], EvModelStep 2,
        EvDoEval 2 False True, EvEval 2] :: int fit_event list"
  let ?post = "[EvSaveTopK 0 (Some 1) (Some 2), EvBarrier, EvDoEval 2 True True,
          EvEval 2, EvDoEarlyStop True, EvSaveTopK 0 None (Some 2), EvBarrier, EvLogParams]
          :: int fit_event list"
  have tr: "trace (res_state ?run) = ?pre @ EvDoEarlyStop True # ?post"
    by (simp add: run_defs demo_defs)
  have "no_training_after_stop (trace (res_state ?run))"
    by (rule fit_early_stop)
  with tr have "\<forall>e \<in> set ?post. \<not> is_training_event e"
    unfolding no_training_after_stop_def by blast
  then have "filter is_training_event ?post = []"
    by (simp only: filter_empty_conv)
  with tr show ?thesis
    by (rule conjI)
qed

text \<open>
  Claim C5. With an evaluator but no validation loader, \<open>fit\<close> raises
  \<open>AssertionError\<close> in its initial state, before any event and with the step counter
  at 0; with a validation loader, or without an evaluator, the check passes and \<open>fit\<close>
  is the training that follows it.
\<close>

theorem fit_checks_val_loader:
  "(evaluator T \<noteq> None \<and> val_ld = None \<longrightarrow>
      fit T L n_epochs val_ld test_ld mb path per_iters w = Raise AssertionError (fit_start w)
      \<and> trace (fit_start w) = [] \<and> total_steps (fit_start w) = 0)
   \<and> (val_ld \<noteq> None \<or> evaluator T = None \<longrightarrow>
      check_configuration (evaluator T) val_ld = Inr ()
      \<and> fit T L n_epochs val_ld test_ld mb path per_iters w
        = fit_train T L n_epochs
            \<lparr>val_loader = val_ld, test_loader = test_ld, mini_batch_infer = mb,
             save_model_path = path, save_model_per_iters = per_iters\<rparr> w)"
  by (auto simp: fit_def check_configuration_def fit_start_def)

theorem fit_checks_val_loader_witness:
  "evaluator demo_trainer \<noteq> None
   \<and> fit demo_trainer demo_loader 2 None None True None (Some 1) 0
       = Raise AssertionError \<lparr>world = 0, total_steps = 0, early_stop = False, trace = []\<rparr>
   \<and> check_configuration (evaluator demo_trainer) (Some ()) = Inr ()"
proof -
  have h: "evaluator demo_trainer \<noteq> None"
    by (simp add: demo_trainer_def)
  from fit_checks_val_loader [of demo_trainer None demo_loader 2 None True None "Some 1" 0] h
  have a: "fit demo_trainer demo_loader 2 None None True None (Some 1) 0
             = Raise AssertionError (fit_start 0)"
    by blast
  from fit_checks_val_loader [of demo_trainer "Some ()" demo_loader 2 None True None "Some 1" 0]
  have b: "check_configuration (evaluator demo_trainer) (Some ()) = Inr ()"
    by blast
  from h a b show ?thesis
    by (simp add: fit_start_def)
qed

lemma train_step_label_events:
  "(length (bg_etypes bg) \<noteq> 1 \<longrightarrow>
      (\<exists>e st'. train_step T L A epoch i (inp, bg, blocks) st = Raise e st'
         \<and> (e = AssertionError
            \<or> (\<exists>d. wrap_input_nodes bg inp = Inr d \<and> get_node_feats L d = Inl e))
         \<and> (\<forall>c sd. EvGetLabels c sd \<notin> set (new_events st st'))))
   \<and> (\<forall>c sd. EvGetLabels c sd
               \<in> set (new_events st (res_state (train_step T L A epoch i (inp, bg, blocks) st)))
         \<longrightarrow> length (bg_etypes bg) = 1 \<and> bg_canonical_etypes bg = [c]
             \<and> bg_edge_ids bg (fst (snd c)) = Some sd)
   \<and> (\<forall>d f sd. length (bg_etypes bg) = 1 \<and> wrap_input_nodes bg inp = Inr d
          \<and> get_node_feats L d = Inr f
          \<and> bg_edge_ids bg (fst (snd (bg_canonical_etypes bg ! 0))) = Some sd \<longrightarrow>
          EvGetLabels (bg_canonical_etypes bg ! 0) sd
            \<in> set (new_events st (res_state (train_step T L A epoch i (inp, bg, blocks) st))))"
proof -
  let ?st0 = "emit (EvTrainStep epoch i) (st\<lparr>total_steps := total_steps st + 1\<rparr>)"
  let ?r = "train_step T L A epoch i (inp, bg, blocks) st"
  have t0: "trace ?st0 = trace st @ [EvTrainStep epoch i]"
    by (simp add: emit_def)
  obtain gevs where
    g1: "trace (res_state (gather_batch L (inp, bg, blocks) ?st0)) = trace ?st0 @ gevs" and
    g2: "\<forall>c sd. EvGetLabels c sd \<in> set gevs \<longrightarrow>
           bg_canonical_etypes bg = [c] \<and> bg_edge_ids bg (fst (snd c)) = Some sd" and
    g3: "\<forall>d f sd. length (bg_etypes bg) = 1 \<and> wrap_input_nodes bg inp = Inr d
           \<and> get_node_feats L d = Inr f
           \<and> bg_edge_ids bg (fst (snd (bg_canonical_etypes bg ! 0))) = Some sd \<longrightarrow>
           EvGetLabels (bg_canonical_etypes bg ! 0) sd \<in> set gevs"
    using gather_batch_trace [of L inp bg blocks ?st0] by blast
  obtain bevs where
    b1: "trace (res_state ?r) = trace (res_state (gather_batch L (inp, bg, blocks) ?st0)) @ bevs" and
    b2: "\<forall>c sd. EvGetLabels c sd \<notin> set bevs"
    using train_step_trace [of T L A epoch i "(inp, bg, blocks)" st] by blast
  have new: "new_events st (res_state ?r) = EvTrainStep epoch i # gevs @ bevs"
    using t0 g1 b1 by (simp add: new_events_def)
  have part1: "length (bg_etypes bg) \<noteq> 1 \<longrightarrow>
      (\<exists>e st'. ?r = Raise e st'
         \<and> (e = AssertionError
            \<or> (\<exists>d. wrap_input_nodes bg inp = Inr d \<and> get_node_feats L d = Inl e))
         \<and> (\<forall>c sd. EvGetLabels c sd \<notin> set (new_events st st')))"
  proof
    assume ne: "length (bg_etypes bg) \<noteq> 1"
    from gather_batch_not_one_etype [OF ne, of L inp blocks ?st0]
    obtain e st' gevs' where
      r: "gather_batch L (inp, bg, blocks) ?st0 = Raise e st'" and
      e: "e = AssertionError
          \<or> (\<exists>d. wrap_input_nodes bg inp = Inr d \<and> get_node_feats L d = Inl e)" and
      tr: "trace st' = trace ?st0 @ gevs'" and
      nl: "\<forall>c sd. EvGetLabels c sd \<notin> set gevs'"
      by blast
    have "?r = Raise e st'"
      using r by (rule train_step_raises_with_gather)
    moreover have "new_events st st' = EvTrainStep epoch i # gevs'"
      using tr t0 by (simp add: new_events_def)
    ultimately show "\<exists>e st'. ?r = Raise e st'
         \<and> (e = AssertionError
            \<or> (\<exists>d. wrap_input_nodes bg inp = Inr d \<and> get_node_feats L d = Inl e))
         \<and> (\<forall>c sd. EvGetLabels c sd \<notin> set (new_events st st'))"
      using e nl by auto
  qed
  have part2: "\<forall>c sd. EvGetLabels c sd \<in> set (new_events st (res_state ?r))
         \<longrightarrow> length (bg_etypes bg) = 1 \<and> bg_canonical_etypes bg = [c]
             \<and> bg_edge_ids bg (fst (snd c)) = Some sd"
    using new g2 b2 by (auto simp: bg_etypes_def)
  have part3: "\<forall>d f sd. length (bg_etypes bg) = 1 \<and> wrap_input_nodes bg inp = Inr d
          \<and> get_node_feats L d = Inr f
          \<and> bg_edge_ids bg (fst (snd (bg_canonical_etypes bg ! 0))) = Some sd \<longrightarrow>
          EvGetLabels (bg_canonical_etypes bg ! 0) sd \<in> set (new_events st (res_state ?r))"
    using new g3 by auto
  from part1 part2 part3 show ?thesis
    by (intro conjI)
qed

lemma gather_batch_asserts:
  assumes "length (bg_etypes bg) \<noteq> 1" and "wrap_input_nodes bg inp = Inr d"
    and "get_node_feats L d = Inr f"
  shows "gather_batch L (inp, bg, blocks) st = Raise AssertionError (emit (EvGetNodeFeats d) st)"
  using assms by (simp add: gather_batch_def Let_def)

lemma gather_batch_labels:
  assumes "length (bg_etypes bg) = 1" and "wrap_input_nodes bg inp = Inr d"
    and "get_node_feats L d = Inr f"
    and "bg_edge_ids bg (fst (snd (bg_canonical_etypes bg ! 0))) = Some sd"
  shows "gather_batch L (inp, bg, blocks) st
           = (case get_labels L [(bg_canonical_etypes bg ! 0, sd)] of
                Inl e \<Rightarrow>
                  Raise e (emit (EvGetLabels (bg_canonical_etypes bg ! 0) sd)
                             (emit (EvGetNodeFeats d) st))
              | Inr lbl \<Rightarrow>
                  Ok (d, f, lbl) (emit (EvGetLabels (bg_canonical_etypes bg ! 0) sd)
                                    (emit (EvGetNodeFeats d) st)))"
  using assms by (simp add: gather_batch_def Let_def)

text \<open>
  Claim C6 says that a training step on a batch graph whose number of edge types is not
  one fails with an assertion error. The assertion comes after the feature gathering:
  on a batch graph with two edge types and a data object whose \<open>get_node_feats\<close> raises
  \<open>KeyError\<close>, the step raises that \<open>KeyError\<close> and never reaches the assertion.
\<close>

theorem train_step_assertion_counterexample:
  "length (bg_etypes demo_graph_two) = 2
   \<and> train_step demo_trainer demo_loader_no_feats
       \<lparr>val_loader = Some (), test_loader = Some (), mini_batch_infer = True,
        save_model_path = None, save_model_per_iters = Some 1\<rparr>
       0 0 (NotDict [0], demo_graph_two, [()]) (fit_start 0)
     = Raise KeyError
         \<lparr>world = 0, total_steps = 1, early_stop = False,
          trace = [EvTrainStep 0 0, EvGetNodeFeats [(''n0'', [0])]]\<rparr>"
  by (simp add: run_defs demo_defs)

text \<open>
  Claim C6 as amended. A training step on a batch graph whose number of edge types is
  not one raises before any label gathering: it raises \<open>AssertionError\<close>, right after
  the feature gathering, whenever the wrapping of the input nodes and the feature
  gathering before the assertion have returned, and otherwise what these have raised.
  Whenever a step gathers labels, the batch graph has exactly one canonical edge type
  and the labels are keyed by it, with the edge IDs stored for it. With one edge type,
  gathered features and stored edge IDs, the step calls \<open>get_labels\<close> with exactly that
  key and those IDs: it raises what \<open>get_labels\<close> raises, and otherwise goes on to the
  model step with the labels returned.
\<close>

theorem train_step_one_edge_type:
  "(length (bg_etypes bg) \<noteq> 1 \<longrightarrow>
      (\<exists>e st'. train_step T L A epoch i (inp, bg, blocks) st = Raise e st'
         \<and> (e = AssertionError
            \<or> (\<exists>d. wrap_input_nodes bg inp = Inr d \<and> get_node_feats L d = Inl e))
         \<and> (\<forall>c sd. EvGetLabels c sd \<notin> set (new_events st st'))))
   \<and> (\<forall>d f. length (bg_etypes bg) \<noteq> 1 \<and> wrap_input_nodes bg inp = Inr d
          \<and> get_node_feats L d = Inr f \<longrightarrow>
          train_step T L A epoch i (inp, bg, blocks) st
            = Raise AssertionError
                (emit (EvGetNodeFeats d)
                   (emit (EvTrainStep epoch i) (st\<lparr>total_steps := total_steps st + 1\<rparr>))))
   \<and> (\<forall>c sd. EvGetLabels c sd
               \<in> set (new_events st (res_state (train_step T L A epoch i (inp, bg, blocks) st)))
         \<longrightarrow> length (bg_etypes bg) = 1 \<and> bg_canonical_etypes bg = [c]
             \<and> bg_edge_ids bg (fst (snd c)) = Some sd)
   \<and> (\<forall>d f sd. length (bg_etypes bg) = 1 \<and> wrap_input_nodes bg inp = Inr d
          \<and> get_node_feats L d = Inr f
          \<and> bg_edge_ids bg (fst (snd (bg_canonical_etypes bg ! 0))) = Some sd \<longrightarrow>
          EvGetLabels (bg_canonical_etypes bg ! 0) sd
            \<in> set (new_events st (res_state (train_step T L A epoch i (inp, bg, blocks) st)))
        \<and> (\<forall>e. get_labels L [(bg_canonical_etypes bg ! 0, sd)] = Inl e \<longrightarrow>
              train_step T L A epoch i (inp, bg, blocks) st
                = Raise e
                    (emit (EvGetLabels (bg_canonical_etypes bg ! 0) sd)
                       (emit (EvGetNodeFeats d)
                          (emit (EvTrainStep epoch i)
                             (st\<lparr>total_steps := total_steps st + 1\<rparr>)))))
        \<and> (\<forall>lbl. get_labels L [(bg_canonical_etypes bg ! 0, sd)] = Inr lbl \<longrightarrow>
              train_step T L A epoch i (inp, bg, blocks) st
                = (case evaluate_and_check_stop T A False
                          (emit (EvModelStep (total_steps st + 1))
                             ((emit (EvGetLabels (bg_canonical_etypes bg ! 0) sd)
                                 (emit (EvGetNodeFeats d)
                                    (emit (EvTrainStep epoch i)
                                       (st\<lparr>total_steps := total_steps st + 1\<rparr>))))
                              \<lparr>world := model_step T (world st) blocks bg f d lbl\<rparr>)) of
                     Raise e st' \<Rightarrow> Raise e st'
                   | Ok val_score st' \<Rightarrow> save_per_iters T A epoch i val_score st')))"
proof -
  let ?st0 = "emit (EvTrainStep epoch i) (st\<lparr>total_steps := total_steps st + 1\<rparr>)"
  note ev = train_step_label_events [of bg T L A epoch i inp blocks st]
  have p1: "length (bg_etypes bg) \<noteq> 1 \<longrightarrow>
      (\<exists>e st'. train_step T L A epoch i (inp, bg, blocks) st = Raise e st'
         \<and> (e = AssertionError
            \<or> (\<exists>d. wrap_input_nodes bg inp = Inr d \<and> get_node_feats L d = Inl e))
         \<and> (\<forall>c sd. EvGetLabels c sd \<notin> set (new_events st st')))"
    using ev by (rule conjunct1)
  have p3: "\<forall>c sd. EvGetLabels c sd
               \<in> set (new_events st (res_state (train_step T L A epoch i (inp, bg, blocks) st)))
         \<longrightarrow> length (bg_etypes bg) = 1 \<and> bg_canonical_etypes bg = [c]
             \<and> bg_edge_ids bg (fst (snd c)) = Some sd"
    using ev by (rule conjunct1 [OF conjunct2])
  have p4: "\<forall>d f sd. length (bg_etypes bg) = 1 \<and> wrap_input_nodes bg inp = Inr d
          \<and> get_node_feats L d = Inr f
          \<and> bg_edge_ids bg (fst (snd (bg_canonical_etypes bg ! 0))) = Some sd \<longrightarrow>
          EvGetLabels (bg_canonical_etypes bg ! 0) sd
            \<in> set (new_events st (res_state (train_step T L A epoch i (inp, bg, blocks) st)))"
    using ev by (rule conjunct2 [OF conjunct2])
  have p2: "\<forall>d f. length (bg_etypes bg) \<noteq> 1 \<and> wrap_input_nodes bg inp = Inr d
          \<and> get_node_feats L d = Inr f \<longrightarrow>
          train_step T L A epoch i (inp, bg, blocks) st
            = Raise AssertionError (emit (EvGetNodeFeats d) ?st0)"
  proof (intro allI impI)
    fix d f
    assume "length (bg_etypes bg) \<noteq> 1 \<and> wrap_input_nodes bg inp = Inr d
          \<and> get_node_feats L d = Inr f"
    then have "gather_batch L (inp, bg, blocks) ?st0
                 = Raise AssertionError (emit (EvGetNodeFeats d) ?st0)"
      by (simp add: gather_batch_asserts)
    then show "train_step T L A epoch i (inp, bg, blocks) st
            = Raise AssertionError (emit (EvGetNodeFeats d) ?st0)"
      by (rule train_step_raises_with_gather)
  qed
  have p5: "\<forall>d f sd. length (bg_etypes bg) = 1 \<and> wrap_input_nodes bg inp = Inr d
          \<and> get_node_feats L d = Inr f
          \<and> bg_edge_ids bg (fst (snd (bg_canonical_etypes bg ! 0))) = Some sd \<longrightarrow>
          (\<forall>e. get_labels L [(bg_canonical_etypes bg ! 0, sd)] = Inl e \<longrightarrow>
              train_step T L A epoch i (inp, bg, blocks) st
                = Raise e
                    (emit (EvGetLabels (bg_canonical_etypes bg ! 0) sd)
                       (emit (EvGetNodeFeats d) ?st0)))
        \<and> (\<forall>lbl. get_labels L [(bg_canonical_etypes bg ! 0, sd)] = Inr lbl \<longrightarrow>
              train_step T L A epoch i (inp, bg, blocks) st
                = (case evaluate_and_check_stop T A False
                          (emit (EvModelStep (total_steps st + 1))
                             ((emit (EvGetLabels (bg_canonical_etypes bg ! 0) sd)
                                 (emit (EvGetNodeFeats d) ?st0))
                              \<lparr>world := model_step T (world st) blocks bg f d lbl\<rparr>)) of
                     Raise e st' \<Rightarrow> Raise e st'
                   | Ok val_score st' \<Rightarrow> save_per_iters T A epoch i val_score st'))"
  proof (intro allI impI)
    fix d f sd
    assume h: "length (bg_etypes bg) = 1 \<and> wrap_input_nodes bg inp = Inr d
          \<and> get_node_feats L d = Inr f
          \<and> bg_edge_ids bg (fst (snd (bg_canonical_etypes bg ! 0))) = Some sd"
    let ?c = "bg_canonical_etypes bg ! 0"
    let ?st2 = "emit (EvGetLabels ?c sd) (emit (EvGetNodeFeats d) ?st0)"
    from h have g: "gather_batch L (inp, bg, blocks) ?st0
           = (case get_labels L [(?c, sd)] of
                Inl e \<Rightarrow> Raise e ?st2
              | Inr lbl \<Rightarrow> Ok (d, f, lbl) ?st2)"
      by (intro gather_batch_labels) auto
    have a: "\<forall>e. get_labels L [(?c, sd)] = Inl e \<longrightarrow>
              train_step T L A epoch i (inp, bg, blocks) st = Raise e ?st2"
      using g by (auto intro: train_step_raises_with_gather)
    have b: "\<forall>lbl. get_labels L [(?c, sd)] = Inr lbl \<longrightarrow>
              train_step T L A epoch i (inp, bg, blocks) st
                = (case evaluate_and_check_stop T A False
                          (emit (EvModelStep (total_steps st + 1))
                             (?st2\<lparr>world := model_step T (world st) blocks bg f d lbl\<rparr>)) of
                     Raise e st' \<Rightarrow> Raise e st'
                   | Ok val_score st' \<Rightarrow> save_per_iters T A epoch i val_score st')"
    proof (intro allI impI)
      fix lbl assume "get_labels L [(?c, sd)] = Inr lbl"
      with g have "gather_batch L (inp, bg, blocks) ?st0 = Ok (d, f, lbl) ?st2"
        by simp
      moreover have "world ?st2 = world st" "total_steps ?st2 = total_steps st + 1"
        by (simp_all add: emit_def)
      ultimately show "train_step T L A epoch i (inp, bg, blocks) st
                = (case evaluate_and_check_stop T A False
                          (emit (EvModelStep (total_steps st + 1))
                             (?st2\<lparr>world := model_step T (world st) blocks bg f d lbl\<rparr>)) of
                     Raise e st' \<Rightarrow> Raise e st'
                   | Ok val_score st' \<Rightarrow> save_per_iters T A epoch i val_score st')"
        by (simp add: train_step_def train_step_body_def Let_def)
    qed
    from a b show "(\<forall>e. get_labels L [(?c, sd)] = Inl e \<longrightarrow>
              train_step T L A epoch i (inp, bg, blocks) st = Raise e ?st2)
        \<and> (\<forall>lbl. get_labels L [(?c, sd)] = Inr lbl \<longrightarrow>
              train_step T L A epoch i (inp, bg, blocks) st
                = (case evaluate_and_check_stop T A False
                          (emit (EvModelStep (total_steps st + 1))
                             (?st2\<lparr>world := model_step T (world st) blocks bg f d lbl\<rparr>)) of
                     Raise e st' \<Rightarrow> Raise e st'
                   | Ok val_score st' \<Rightarrow> save_per_iters T A epoch i val_score st'))"
      by (rule conjI)
  qed
  from p1 p2 p3 p4 p5 show ?thesis
    by blast
qed

theorem train_step_one_edge_type_witness:
  "length (bg_etypes demo_graph_two) = 2
   \<and> train_step demo_trainer demo_loader
       \<lparr>val_loader = Some (), test_loader = Some (), mini_batch_infer = True,
        save_model_path = None, save_model_per_iters = Some 1\<rparr>
       0 0 (NotDict [0], demo_graph_two, [()]) (fit_start 0)
     = Raise AssertionError
         \<lparr>world = 0, total_steps = 1, early_stop = False,
          trace = [EvTrainStep 0 0, EvGetNodeFeats [(''n0'', [0])]]\<rparr>
   \<and> length (bg_etypes demo_graph) = 1
   \<and> EvGetLabels (''n0'', ''r'', ''n0'') [0, 1]
       \<in> set (new_events (fit_start 0)
           (res_state (train_step demo_trainer demo_loader
               \<lparr>val_loader = Some (), test_loader = Some (), mini_batch_infer = True,
                save_model_path = None, save_model_per_iters = Some 1\<rparr>
               0 0 (NotDict [0], demo_graph, [()]) (fit_start 0))))
   \<and> train_step demo_trainer demo_loader_no_labels
       \<lparr>val_loader = Some (), test_loader = Some (), mini_batch_infer = True,
        save_model_path = None, save_model_per_iters = Some 1\<rparr>
       0 0 (NotDict [0], demo_graph, [()]) (fit_start 0)
     = Raise KeyError
         \<lparr>world = 0, total_steps = 1, early_stop = False,
          trace = [EvTrainStep 0 0, EvGetNodeFeats [(''n0'', [0])],
                   EvGetLabels (''n0'', ''r'', ''n0'') [0, 1]]\<rparr>"
proof -
  let ?A = "\<lparr>val_loader = Some (), test_loader = Some (), mini_batch_infer = True,
             save_model_path = None, save_model_per_iters = Some 1\<rparr>"
  let ?d = "[(''n0'', [0 :: nat])]"
  have two: "length (bg_etypes demo_graph_two) = 2"
    by (simp add: bg_etypes_def demo_graph_two_def)
  then have ne: "length (bg_etypes demo_graph_two) \<noteq> 1"
    by simp
  have w2: "wrap_input_nodes demo_graph_two (NotDict [0]) = Inr ?d"
    by (simp add: wrap_input_nodes_def demo_graph_two_def)
  have f: "get_node_feats demo_loader ?d = Inr ()"
    by (simp add: demo_loader_def)
  note two_types = train_step_one_edge_type
         [of demo_graph_two demo_trainer demo_loader ?A 0 0 "NotDict [0]" "[()]" "fit_start 0"]
  from two_types [THEN conjunct2, THEN conjunct1, rule_format, of ?d "()"] ne w2 f
  have a: "train_step demo_trainer demo_loader ?A 0 0 (NotDict [0], demo_graph_two, [()])
                  (fit_start 0)
     = Raise AssertionError
         \<lparr>world = 0, total_steps = 1, early_stop = False,
          trace = [EvTrainStep 0 0, EvGetNodeFeats [(''n0'', [0])]]\<rparr>"
    by (simp add: emit_def fit_start_def)
  have one: "length (bg_etypes demo_graph) = 1"
    by (simp add: bg_etypes_def demo_graph_def)
  have w: "wrap_input_nodes demo_graph (NotDict [0]) = Inr ?d"
    by (simp add: wrap_input_nodes_def demo_graph_def)
  have c: "bg_canonical_etypes demo_graph ! 0 = (''n0'', ''r'', ''n0'')"
    by (simp add: demo_graph_def)
  have i: "bg_edge_ids demo_graph (fst (snd (bg_canonical_etypes demo_graph ! 0))) = Some [0, 1]"
    by (simp add: demo_graph_def)
  note one_type = train_step_one_edge_type
         [of demo_graph demo_trainer demo_loader ?A 0 0 "NotDict [0]" "[()]" "fit_start 0"]
  from one_type [THEN conjunct2, THEN conjunct2, THEN conjunct2, rule_format, of ?d "()" "[0, 1]"]
       one w f i
  have "EvGetLabels (bg_canonical_etypes demo_graph ! 0) [0, 1]
          \<in> set (new_events (fit_start 0)
               (res_state (train_step demo_trainer demo_loader ?A 0 0
                  (NotDict [0], demo_graph, [()]) (fit_start 0))))"
    by simp
  with c have b: "EvGetLabels (''n0'', ''r'', ''n0'') [0, 1]
          \<in> set (new_events (fit_start 0)
               (res_state (train_step demo_trainer demo_loader ?A 0 0
                  (NotDict [0], demo_graph, [()]) (fit_start 0))))"
    by simp
  have f': "get_node_feats demo_loader_no_labels ?d = Inr ()"
    by (simp add: demo_loader_no_labels_def demo_loader_def)
  have l: "get_labels demo_loader_no_labels [(bg_canonical_etypes demo_graph ! 0, [0, 1])]
             = Inl KeyError"
    by (simp add: demo_loader_no_labels_def)
  note no_labels = train_step_one_edge_type
         [of demo_graph demo_trainer demo_loader_no_labels ?A 0 0 "NotDict [0]" "[()]"
             "fit_start 0"]
  from no_labels [THEN conjunct2, THEN conjunct2, THEN conjunct2, rule_format, of ?d "()" "[0, 1]"]
       one w f' i l
  have d: "train_step demo_trainer demo_loader_no_labels ?A 0 0
                  (NotDict [0], demo_graph, [()]) (fit_start 0)
     = Raise KeyError
         \<lparr>world = 0, total_steps = 1, early_stop = False,
          trace = [EvTrainStep 0 0, EvGetNodeFeats [(''n0'', [0])],
                   EvGetLabels (''n0'', ''r'', ''n0'') [0, 1]]\<rparr>"
    by (simp add: emit_def fit_start_def c)
  from two a one b d show ?thesis
    by (intro conjI)
qed

text \<open>
  Claim C9. With \<open>save_model_per_iters = None\<close>, a passed configuration check, at
  least one epoch and a first mini-batch whose step reaches the checkpoint condition,
  \<open>fit\<close> raises \<open>TypeError\<close> there, in its first training step; with an integer the
  checkpoint condition never raises.
\<close>

theorem fit_without_per_iters_raises:
  assumes "check_configuration (evaluator T) val_ld = Inr ()"
    and "0 < n_epochs"
    and "batches L 0 = b # bs"
    and "train_step_body T L
           \<lparr>val_loader = val_ld, test_loader = test_ld, mini_batch_infer = mb,
            save_model_path = path, save_model_per_iters = None\<rparr>
           0 0 b (emit (EvEpochStart 0) (fit_start w)) = Ok v st1"
  shows "fit T L n_epochs val_ld test_ld mb path None w = Raise TypeError st1
       \<and> total_steps st1 = 1
       \<and> (\<forall>k A epoch i val_score st.
            save_model_per_iters A = Some k \<longrightarrow>
            (\<exists>st'. save_per_iters T A epoch i val_score st = Ok () st'))"
proof -
  let ?A = "\<lparr>val_loader = val_ld, test_loader = test_ld, mini_batch_infer = mb,
             save_model_path = path, save_model_per_iters = None\<rparr>"
  let ?st0 = "emit (EvEpochStart 0) (fit_start w)"
  have step: "train_step T L ?A 0 0 b ?st0 = Raise TypeError st1"
    using assms(4) by (simp add: train_step_def save_per_iters_def)
  have "List.enumerate 0 (batches L 0) = (0, b) # List.enumerate 1 bs"
    using assms(3) by simp
  then have "fit_steps T L ?A 0 (List.enumerate 0 (batches L 0)) ?st0 = Raise TypeError st1"
    using step by simp
  then have epoch: "fit_epoch T L ?A 0 (fit_start w) = Raise TypeError st1"
    by (simp add: fit_epoch_def)
  have "[0..<nat n_epochs] = 0 # [1..<nat n_epochs]"
    using assms(2) by (simp add: upt_conv_Cons)
  then have "fit_epochs T L ?A [0..<nat n_epochs] (fit_start w) = Raise TypeError st1"
    using epoch by simp
  then have "fit T L n_epochs val_ld test_ld mb path None w = Raise TypeError st1"
    using assms(1) by (simp add: fit_def fit_train_def)
  moreover have "total_steps st1 = 1"
    using train_step_body_total_steps [of T L ?A 0 0 b ?st0] assms(4)
    by (simp add: res_state_def emit_def fit_start_def)
  moreover have "\<forall>k A epoch i val_score st.
            save_model_per_iters A = Some k \<longrightarrow>
            (\<exists>st'. save_per_iters T A epoch i val_score st = Ok () st')"
    by (simp add: save_per_iters_def)
  ultimately show ?thesis
    by (intro conjI)
qed

theorem fit_without_per_iters_raises_witness:
  "check_configuration (evaluator demo_trainer) (Some ()) = Inr ()
   \<and> (0::int) < 2
   \<and> batches demo_loader 0
       = (NotDict [0], demo_graph, [()])
         # [(NotDict [0], demo_graph, [()]), (NotDict [0], demo_graph, [()])]
   \<and> fit demo_trainer demo_loader 2 (Some ()) (Some ()) True None None 0
       = Raise TypeError
           \<lparr>world = 1, total_steps = 1, early_stop = False,
            trace = [EvEpochStart 0, EvTrainStep 0 0, EvGetNodeFeats [(''n0'', [0])],
                     EvGetLabels (''n0'', ''r'', ''n0'') [0, 1], EvModelStep 1,
                     EvDoEval 1 False True, EvEval 1, EvDoEarlyStop False]\<rparr>"
proof -
  let ?A = "\<lparr>val_loader = Some (), test_loader = Some (), mini_batch_infer = True,
             save_model_path = None, save_model_per_iters = None\<rparr>"
  let ?b = "(NotDict [0], demo_graph, [()])"
  let ?st1 = "\<lparr>world = 1, total_steps = 1, early_stop = False,
            trace = [EvEpochStart 0, EvTrainStep 0 0, EvGetNodeFeats [(''n0'', [0])],
                     EvGetLabels (''n0'', ''r'', ''n0'') [0, 1], EvModelStep 1,
                     EvDoEval 1 False True, EvEval 1, EvDoEarlyStop False]\<rparr>
            :: (nat, int) fit_state"
  have h1: "check_configuration (evaluator demo_trainer) (Some ()) = Inr ()"
    by (simp add: check_configuration_def)
  have h2: "(0::int) < 2"
    by simp
  have h3: "batches demo_loader 0 = ?b # [?b, ?b]"
    by (simp add: demo_loader_def numeral_3_eq_3)
  have h4: "train_step_body demo_trainer demo_loader ?A 0 0 ?b
              (emit (EvEpochStart 0) (fit_start 0)) = Ok (Some 1) ?st1"
    by (simp add: run_defs demo_defs)
  from fit_without_per_iters_raises [OF h1 h2 h3 h4]
  have "fit demo_trainer demo_loader 2 (Some ()) (Some ()) True None None 0 = Raise TypeError ?st1"
    by (rule conjunct1)
  with h1 h2 h3 show ?thesis
    by (intro conjI)
qed

section \<open>Properties of \<open>dist_inference\<close>\<close>

lemma length_fold_list_update:
  "length (fold (\<lambda>(i, r) rows. rows[i := r]) zs rows) = length rows"
  by (induction zs arbitrary: rows) (auto split: prod.splits)

lemma set_rows_shape:
  "set_rows t idx vals = Inr t' \<Longrightarrow> dt_shape t' = dt_shape t"
  by (auto simp: set_rows_def dt_shape_def length_fold_list_update split: if_splits)

lemma shapes_kept_refl: "shapes_kept s s"
  by (simp add: shapes_kept_def)

lemma shapes_kept_trans: "shapes_kept a b \<Longrightarrow> shapes_kept b c \<Longrightarrow> shapes_kept a c"
  unfolding shapes_kept_def by (metis (no_types, lifting))

lemma pass_stored_kept:
  "pass_stored g enc i s \<Longrightarrow> shapes_kept s s' \<Longrightarrow> pass_stored g enc i s'"
  unfolding pass_stored_def shapes_kept_def by (metis (no_types, lifting))

lemma backed_kept:
  "backed f name y s \<Longrightarrow> shapes_kept s s' \<Longrightarrow> backed f name y s'"
  unfolding backed_def shapes_kept_def by (metis (no_types, lifting))

lemma DistTensor_result:
  assumes "DistTensor store shape name policy = Inr (t, store')"
  shows "dt_shape t = shape" and "map_of store' (policy, name) = Some t"
    and "shapes_kept store store'"
proof -
  show "dt_shape t = shape"
    using assms by (auto simp: DistTensor_def dt_shape_def Let_def split: option.splits if_splits)
  show "map_of store' (policy, name) = Some t"
    using assms by (auto simp: DistTensor_def Let_def update_conv' split: option.splits if_splits)
  show "shapes_kept store store'"
    using assms
    by (auto simp: DistTensor_def Let_def update_conv' shapes_kept_def
        split: option.splits if_splits)
qed

lemma alloc_loop_result:
  assumes "alloc_loop g enc i ks (y, store) = Inr (y', store')"
    and "backed (\<lambda>k. (g_number_of_nodes g k, layer_width enc i)) (''h-'' @ str_nat i) y store"
  shows "backed (\<lambda>k. (g_number_of_nodes g k, layer_width enc i)) (''h-'' @ str_nat i) y' store'
       \<and> shapes_kept store store'
       \<and> (\<forall>k. k \<in> set ks \<or> map_of y k \<noteq> None \<longrightarrow> map_of y' k \<noteq> None)"
  using assms
proof (induction ks arbitrary: y store)
  case Nil
  then show ?case by (simp add: shapes_kept_refl)
next
  case (Cons k ks)
  let ?f = "\<lambda>k. (g_number_of_nodes g k, layer_width enc i)"
  let ?name = "''h-'' @ str_nat i"
  from Cons.prems(1) obtain t s1 where
    d: "DistTensor store (?f k) ?name k = Inr (t, s1)" and
    r: "alloc_loop g enc i ks (AList.update k t y, s1) = Inr (y', store')"
    by (auto split: sum.splits)
  note dt = DistTensor_result [OF d]
  have "backed ?f ?name y s1"
    using Cons.prems(2) dt(3) by (rule backed_kept)
  with dt(1,2) have b1: "backed ?f ?name (AList.update k t y) s1"
    by (auto simp: backed_def update_conv')
  from Cons.IH [OF r b1] have
    "backed ?f ?name y' store'" "shapes_kept s1 store'"
    "\<forall>k'. k' \<in> set ks \<or> map_of (AList.update k t y) k' \<noteq> None \<longrightarrow> map_of y' k' \<noteq> None"
    by blast+
  with dt(3) show ?case
    by (auto simp: update_conv' intro: shapes_kept_trans)
qed

lemma alloc_outputs_result:
  assumes "alloc_outputs g enc i store = Inr (y, store')"
  shows "backed (\<lambda>k. (g_number_of_nodes g k, layer_width enc i)) (''h-'' @ str_nat i) y store'"
    and "shapes_kept store store'"
    and "shaped g (layer_width enc i) y"
    and "pass_stored g enc i store'"
proof -
  let ?f = "\<lambda>k. (g_number_of_nodes g k, layer_width enc i)"
  let ?name = "''h-'' @ str_nat i"
  have "backed ?f ?name [] store"
    by (simp add: backed_def)
  with assms have
    b: "backed ?f ?name y store'" and k: "shapes_kept store store'" and
    d: "\<forall>k. k \<in> set (g_ntypes g) \<longrightarrow> map_of y k \<noteq> None"
    using alloc_loop_result [of g enc i "g_ntypes g" "[]" store y store']
    by (auto simp: alloc_outputs_def)
  show "backed ?f ?name y store'" by fact
  show "shapes_kept store store'" by fact
  show "shaped g (layer_width enc i) y"
    using b d by (fastforce simp: shaped_def backed_def dt_shape_def)
  show "pass_stored g enc i store'"
    using b d by (fastforce simp: pass_stored_def backed_def)
qed

lemma scatter_outputs_keeps:
  "scatter_outputs out h y = Inr y' \<Longrightarrow>
     (\<forall>k t. map_of y k = Some t \<longrightarrow> (\<exists>t'. map_of y' k = Some t' \<and> dt_shape t' = dt_shape t))
   \<and> (\<forall>k. map_of y k = None \<longrightarrow> map_of y' k = None)"
proof (induction out h y rule: scatter_outputs.induct)
  case (1 output_nodes y)
  then show ?case by simp
next
  case (2 output_nodes k hk rest y)
  show ?case
  proof (cases "map_of output_nodes k")
    case None
    with 2 show ?thesis by simp
  next
    case (Some idx)
    with "2.prems" obtain t t' where
      t: "map_of y k = Some t" and s: "set_rows t idx hk = Inr t'" and
      r: "scatter_outputs output_nodes rest (AList.update k t' y) = Inr y'"
      by (auto split: option.splits sum.splits)
    note ih = "2.IH"(2) [OF Some t s r]
    have sh: "dt_shape t' = dt_shape t"
      using s by (rule set_rows_shape)
    show ?thesis
    proof (intro conjI allI impI)
      fix k0 t0 assume a: "map_of y k0 = Some t0"
      show "\<exists>t'. map_of y' k0 = Some t' \<and> dt_shape t' = dt_shape t0"
      proof (cases "k0 = k")
        case True
        with a t have "t0 = t" by simp
        moreover from ih have "\<exists>u. map_of y' k = Some u \<and> dt_shape u = dt_shape t'"
          by (simp add: update_conv')
        ultimately show ?thesis
          using True sh by auto
      next
        case False
        with a have "map_of (AList.update k t' y) k0 = Some t0"
          by (simp add: update_conv')
        with ih show ?thesis by blast
      qed
    next
      fix k0 assume a: "map_of y k0 = None"
      with t have "k0 \<noteq> k" by auto
      with a have "map_of (AList.update k t' y) k0 = None"
        by (simp add: update_conv')
      with ih show "map_of y' k0 = None" by blast
    qed
  qed
qed

lemma scatter_outputs_skips:
  "scatter_outputs out h y = Inr y' \<Longrightarrow> map_of out k = None \<Longrightarrow> map_of y' k = map_of y k"
proof (induction out h y rule: scatter_outputs.induct)
  case (1 output_nodes y)
  then show ?case by simp
next
  case (2 output_nodes k' hk rest y)
  show ?case
  proof (cases "map_of output_nodes k'")
    case None
    with 2 show ?thesis by simp
  next
    case (Some idx)
    with "2.prems" obtain t t' where
      t: "map_of y k' = Some t" and s: "set_rows t idx hk = Inr t'" and
      r: "scatter_outputs output_nodes rest (AList.update k' t' y) = Inr y'"
      by (auto split: option.splits sum.splits)
    from Some "2.prems"(2) have "k \<noteq> k'"
      by auto
    with "2.IH"(2) [OF Some t s r "2.prems"(2)] show ?thesis
      by (simp add: update_conv')
  qed
qed

lemma infer_batch_keeps:
  "infer_batch g x layer batch y = Inr y' \<Longrightarrow>
     (\<forall>k t. map_of y k = Some t \<longrightarrow> (\<exists>t'. map_of y' k = Some t' \<and> dt_shape t' = dt_shape t))
   \<and> (\<forall>k. map_of y k = None \<longrightarrow> map_of y' k = None)"
  by (auto simp: infer_batch_def split: prod.splits list.splits sum.splits
      dest!: scatter_outputs_keeps)

lemma infer_batches_keeps:
  "infer_batches g x layer bs y = Inr y' \<Longrightarrow>
     (\<forall>k t. map_of y k = Some t \<longrightarrow> (\<exists>t'. map_of y' k = Some t' \<and> dt_shape t' = dt_shape t))
   \<and> (\<forall>k. map_of y k = None \<longrightarrow> map_of y' k = None)"
proof (induction bs arbitrary: y)
  case Nil
  then show ?case by simp
next
  case (Cons b bs)
  from Cons.prems obtain y1 where
    b: "infer_batch g x layer b y = Inr y1" and r: "infer_batches g x layer bs y1 = Inr y'"
    by (auto split: sum.splits)
  from infer_batch_keeps [OF b] Cons.IH [OF r] show ?case
    by (metis (no_types, lifting))
qed

lemma keeps_shaped:
  assumes "\<forall>k t. map_of y k = Some t \<longrightarrow> (\<exists>t'. map_of y' k = Some t' \<and> dt_shape t' = dt_shape t)"
    and "shaped g w y"
  shows "shaped g w y'"
  unfolding shaped_def
proof
  fix k assume "k \<in> set (g_ntypes g)"
  with assms(2) obtain t where "map_of y k = Some t" "dt_shape t = (g_number_of_nodes g k, w)"
    by (auto simp: shaped_def)
  with assms(1) obtain t' where "map_of y' k = Some t'" "dt_shape t' = (g_number_of_nodes g k, w)"
    by fastforce
  then show "\<exists>t. map_of y' k = Some t \<and> dt_shape t = (g_number_of_nodes g k, w)
               \<and> length (dt_rows t) = g_number_of_nodes g k"
    by (auto simp: dt_shape_def)
qed

lemma keeps_backed:
  assumes "\<forall>k t. map_of y k = Some t \<longrightarrow> (\<exists>t'. map_of y' k = Some t' \<and> dt_shape t' = dt_shape t)"
    and "\<forall>k. map_of y k = None \<longrightarrow> map_of y' k = None"
    and "backed f name y store"
  shows "backed f name y' store"
  unfolding backed_def
proof (intro allI impI)
  fix k t' assume a: "map_of y' k = Some t'"
  with assms(2) obtain t where t: "map_of y k = Some t"
    by (cases "map_of y k") auto
  with assms(1) a have "dt_shape t' = dt_shape t"
    by fastforce
  with assms(3) t show "dt_shape t' = f k
      \<and> (\<exists>t0. map_of store (k, name) = Some t0 \<and> dt_shape t0 = f k)"
    by (auto simp: backed_def)
qed

lemma map_of_write_back_fold:
  "map_of (fold (\<lambda>k s. case map_of y k of None \<Rightarrow> s | Some t \<Rightarrow> AList.update (k, name) t s)
             ks store) key
     = (if \<exists>k \<in> set ks. key = (k, name) \<and> map_of y k \<noteq> None
        then map_of y (fst key) else map_of store key)"
proof (induction ks arbitrary: store)
  case Nil
  then show ?case by simp
next
  case (Cons k ks)
  show ?case
  proof (cases "map_of y k")
    case None
    with Cons.IH [of store] show ?thesis
      by auto
  next
    case (Some t)
    with Cons.IH [of "AList.update (k, name) t store"] show ?thesis
      by (auto simp: update_conv')
  qed
qed

lemma write_back_kept:
  assumes "backed f name y store"
  shows "shapes_kept store (write_back g y name store)"
  unfolding shapes_kept_def
proof (intro allI impI)
  fix key t assume a: "map_of store key = Some t"
  show "\<exists>t'. map_of (write_back g y name store) key = Some t' \<and> dt_shape t' = dt_shape t"
  proof (cases "\<exists>k \<in> set (g_ntypes g). key = (k, name) \<and> map_of y k \<noteq> None")
    case False
    then have "map_of (write_back g y name store) key = map_of store key"
      unfolding write_back_def map_of_write_back_fold by (rule if_not_P)
    with a show ?thesis
      by simp
  next
    case True
    then obtain k t1 where k: "key = (k, name)" "map_of y k = Some t1"
      by auto
    with assms obtain t0 where
      "dt_shape t1 = f k" "map_of store (k, name) = Some t0" "dt_shape t0 = f k"
      unfolding backed_def by blast
    with a k have sh: "dt_shape t1 = dt_shape t"
      by simp
    from True have "map_of (write_back g y name store) key = map_of y (fst key)"
      unfolding write_back_def map_of_write_back_fold by (rule if_P)
    with k sh show ?thesis
      by simp
  qed
qed

lemma infer_layers_result:
  "infer_layers g enc S ils x y0 store = Inr (r, store') \<Longrightarrow>
     shapes_kept store store'
   \<and> (\<forall>il \<in> set ils. pass_stored g enc (fst il) store')
   \<and> (ils \<noteq> [] \<longrightarrow> (\<exists>y. r = Some y \<and> shaped g (layer_width enc (fst (last ils))) y))"
proof (induction ils arbitrary: x y0 store)
  case Nil
  then show ?case by (simp add: shapes_kept_refl)
next
  case (Cons il ils)
  obtain i layer where il: "il = (i, layer)"
    by (cases il)
  let ?name = "''h-'' @ str_nat i"
  let ?f = "\<lambda>k. (g_number_of_nodes g k, layer_width enc i)"
  from Cons.prems il obtain ya s1 y1 where
    a: "alloc_outputs g enc i store = Inr (ya, s1)" and
    b: "infer_batches g x layer (data_loader S i (infer_nodes_of g S)) ya = Inr y1" and
    r: "infer_layers g enc S ils y1 (Some y1) (write_back g y1 ?name s1) = Inr (r, store')"
    by (auto split: sum.splits)
  note al = alloc_outputs_result [OF a]
  note kp = infer_batches_keeps [OF b]
  have sh1: "shaped g (layer_width enc i) y1"
    using kp al(3) by (blast intro: keeps_shaped)
  have bk1: "backed ?f ?name y1 s1"
    using kp al(1) by (blast intro: keeps_backed)
  have k2: "shapes_kept s1 (write_back g y1 ?name s1)"
    using bk1 by (rule write_back_kept)
  from Cons.IH [OF r] have
    k3: "shapes_kept (write_back g y1 ?name s1) store'" and
    ps: "\<forall>il \<in> set ils. pass_stored g enc (fst il) store'" and
    lst: "ils \<noteq> [] \<longrightarrow> (\<exists>y. r = Some y \<and> shaped g (layer_width enc (fst (last ils))) y)"
    by blast+
  have k13: "shapes_kept s1 store'"
    using k2 k3 by (rule shapes_kept_trans)
  have kept: "shapes_kept store store'"
    using al(2) k13 by (rule shapes_kept_trans)
  have here: "pass_stored g enc i store'"
    using al(4) k13 by (rule pass_stored_kept)
  have last: "\<exists>y. r = Some y \<and> shaped g (layer_width enc (fst (last (il # ils)))) y"
  proof (cases ils)
    case Nil
    with r sh1 il show ?thesis by auto
  next
    case (Cons a as)
    with lst show ?thesis by simp
  qed
  from kept here ps last il show ?case
    by simp
qed
lemma last_enumerate:
  "ls \<noteq> [] \<Longrightarrow> fst (last (List.enumerate 0 ls)) = length ls - 1"
  by (induction ls rule: rev_induct) (simp_all add: enumerate_append_eq)

lemma layer_width_last:
  "enc_layers enc \<noteq> [] \<Longrightarrow> layer_width enc (length (enc_layers enc) - 1) = enc_out_dims enc"
  by (cases "enc_layers enc") (simp_all add: layer_width_def)


lemma enumerate_nth_mem:
  "i < length ls \<Longrightarrow> (i, ls ! i) \<in> set (List.enumerate 0 ls)"
  by (auto simp: enumerate_eq_zip in_set_zip intro!: exI [of _ i])

text \<open>
  Claim C2. \<open>dist_inference\<close> allocates, in pass \<open>i\<close> and for node type \<open>k\<close>, the
  persistent distributed tensor named \<open>'h-' + str(i)\<close> of the partition policy of \<open>k\<close>,
  with shape (number of nodes of type \<open>k\<close>, \<open>w\<close>), where \<open>w\<close> is \<open>h_dims\<close> when
  \<open>i < len(layers) - 1\<close> and \<open>out_dims\<close> otherwise. Whenever \<open>dist_inference\<close>
  returns, the store holds such a tensor of exactly that shape for every layer index
  \<open>i < len(layers)\<close> and every node type \<open>k\<close> of the graph; a tensor that the store
  already held under one of these names had that shape as well, since the allocation
  reuses it only when the shapes agree (for the first node type in pass 0, a stored
  tensor of another shape makes the call raise \<open>AssertionError\<close>). Consequently the
  returned dictionary has for every node type a tensor of shape (number of nodes of the
  type, \<open>out_dims\<close>), whose row count is the number of nodes of the type.
\<close>

theorem dist_inference_output_shapes:
  "(\<forall>y store'. dist_inference g enc node_feats S store = Inr (y, store') \<longrightarrow>
      (\<forall>i < length (enc_layers enc). \<forall>k \<in> set (g_ntypes g).
          (\<exists>t. map_of store' (k, ''h-'' @ str_nat i) = Some t
             \<and> dt_shape t = (g_number_of_nodes g k,
                  if int i < int (length (enc_layers enc)) - 1
                  then enc_h_dims enc else enc_out_dims enc))
        \<and> (\<forall>t. map_of store (k, ''h-'' @ str_nat i) = Some t \<longrightarrow>
              dt_shape t = (g_number_of_nodes g k,
                  if int i < int (length (enc_layers enc)) - 1
                  then enc_h_dims enc else enc_out_dims enc)))
    \<and> (\<forall>k \<in> set (g_ntypes g). \<exists>t. map_of y k = Some t
           \<and> dt_shape t = (g_number_of_nodes g k, enc_out_dims enc)
           \<and> length (dt_rows t) = g_number_of_nodes g k))
   \<and> (\<forall>k ks t. enc_layers enc \<noteq> [] \<and> g_ntypes g = k # ks
          \<and> map_of store (k, ''h-'' @ str_nat 0) = Some t
          \<and> dt_shape t \<noteq> (g_number_of_nodes g k,
                 if int 0 < int (length (enc_layers enc)) - 1
                 then enc_h_dims enc else enc_out_dims enc) \<longrightarrow>
          dist_inference g enc node_feats S store = Inl AssertionError)"
proof (rule conjI)
  show "\<forall>k ks t. enc_layers enc \<noteq> [] \<and> g_ntypes g = k # ks
          \<and> map_of store (k, ''h-'' @ str_nat 0) = Some t
          \<and> dt_shape t \<noteq> (g_number_of_nodes g k,
                 if int 0 < int (length (enc_layers enc)) - 1
                 then enc_h_dims enc else enc_out_dims enc) \<longrightarrow>
          dist_inference g enc node_feats S store = Inl AssertionError"
  proof (intro allI impI)
    fix k ks t
    assume a: "enc_layers enc \<noteq> [] \<and> g_ntypes g = k # ks
          \<and> map_of store (k, ''h-'' @ str_nat 0) = Some t
          \<and> dt_shape t \<noteq> (g_number_of_nodes g k,
                 if int 0 < int (length (enc_layers enc)) - 1
                 then enc_h_dims enc else enc_out_dims enc)"
    then obtain l ls where l: "enc_layers enc = l # ls"
      by (cases "enc_layers enc") auto
    from a have "DistTensor store (g_number_of_nodes g k, layer_width enc 0)
                   (''h-'' @ str_nat 0) k = Inl AssertionError"
      by (simp add: DistTensor_def layer_width_def)
    with a have "alloc_outputs g enc 0 store = Inl AssertionError"
      by (simp add: alloc_outputs_def)
    with l show "dist_inference g enc node_feats S store = Inl AssertionError"
      by (simp add: dist_inference_def)
  qed
next
  show "\<forall>y store'. dist_inference g enc node_feats S store = Inr (y, store') \<longrightarrow>
      (\<forall>i < length (enc_layers enc). \<forall>k \<in> set (g_ntypes g).
          (\<exists>t. map_of store' (k, ''h-'' @ str_nat i) = Some t
             \<and> dt_shape t = (g_number_of_nodes g k,
                  if int i < int (length (enc_layers enc)) - 1
                  then enc_h_dims enc else enc_out_dims enc))
        \<and> (\<forall>t. map_of store (k, ''h-'' @ str_nat i) = Some t \<longrightarrow>
              dt_shape t = (g_number_of_nodes g k,
                  if int i < int (length (enc_layers enc)) - 1
                  then enc_h_dims enc else enc_out_dims enc)))
    \<and> (\<forall>k \<in> set (g_ntypes g). \<exists>t. map_of y k = Some t
           \<and> dt_shape t = (g_number_of_nodes g k, enc_out_dims enc)
           \<and> length (dt_rows t) = g_number_of_nodes g k)"
  proof (intro allI impI)
  fix y store'
  assume run: "dist_inference g enc node_feats S store = Inr (y, store')"
  let ?ils = "List.enumerate 0 (enc_layers enc)"
  from run have r: "infer_layers g enc S ?ils node_feats None store = Inr (Some y, store')"
    by (auto simp: dist_inference_def split: sum.splits option.splits prod.splits)
  have ne: "enc_layers enc \<noteq> []"
  proof
    assume "enc_layers enc = []"
    with r show False by simp
  qed
  then have ne': "?ils \<noteq> []"
    by (simp add: enumerate_eq_zip)
  note res = infer_layers_result [OF r]
  show "(\<forall>i < length (enc_layers enc). \<forall>k \<in> set (g_ntypes g).
          (\<exists>t. map_of store' (k, ''h-'' @ str_nat i) = Some t
             \<and> dt_shape t = (g_number_of_nodes g k,
                  if int i < int (length (enc_layers enc)) - 1
                  then enc_h_dims enc else enc_out_dims enc))
        \<and> (\<forall>t. map_of store (k, ''h-'' @ str_nat i) = Some t \<longrightarrow>
              dt_shape t = (g_number_of_nodes g k,
                  if int i < int (length (enc_layers enc)) - 1
                  then enc_h_dims enc else enc_out_dims enc)))
    \<and> (\<forall>k \<in> set (g_ntypes g). \<exists>t. map_of y k = Some t
           \<and> dt_shape t = (g_number_of_nodes g k, enc_out_dims enc)
           \<and> length (dt_rows t) = g_number_of_nodes g k)"
  proof (intro conjI allI impI ballI)
    fix i k assume i: "i < length (enc_layers enc)" and k: "k \<in> set (g_ntypes g)"
    from i have "(i, enc_layers enc ! i) \<in> set ?ils"
      by (rule enumerate_nth_mem)
    with res have "pass_stored g enc i store'"
      by fastforce
    with k show "\<exists>t. map_of store' (k, ''h-'' @ str_nat i) = Some t
             \<and> dt_shape t = (g_number_of_nodes g k,
                  if int i < int (length (enc_layers enc)) - 1
                  then enc_h_dims enc else enc_out_dims enc)"
      by (auto simp: pass_stored_def layer_width_def)
  next
    fix i k t0
    assume i: "i < length (enc_layers enc)" and k: "k \<in> set (g_ntypes g)"
      and old: "map_of store (k, ''h-'' @ str_nat i) = Some t0"
    from i have "(i, enc_layers enc ! i) \<in> set ?ils"
      by (rule enumerate_nth_mem)
    with res have "pass_stored g enc i store'"
      by fastforce
    with k obtain t where
      t: "map_of store' (k, ''h-'' @ str_nat i) = Some t"
         "dt_shape t = (g_number_of_nodes g k, layer_width enc i)"
      by (auto simp: pass_stored_def)
    from res old obtain t' where
      "map_of store' (k, ''h-'' @ str_nat i) = Some t'" "dt_shape t' = dt_shape t0"
      unfolding shapes_kept_def by blast
    with t show "dt_shape t0 = (g_number_of_nodes g k,
                  if int i < int (length (enc_layers enc)) - 1
                  then enc_h_dims enc else enc_out_dims enc)"
      by (simp add: layer_width_def)
  next
    fix k assume k: "k \<in> set (g_ntypes g)"
    from res ne' have "shaped g (layer_width enc (fst (last ?ils))) y"
      by auto
    with ne have "shaped g (enc_out_dims enc) y"
      using layer_width_last [OF ne] by (simp add: last_enumerate)
    with k show "\<exists>t. map_of y k = Some t
           \<and> dt_shape t = (g_number_of_nodes g k, enc_out_dims enc)
           \<and> length (dt_rows t) = g_number_of_nodes g k"
      by (simp add: shaped_def)
  qed
  qed
qed

theorem dist_inference_output_shapes_witness:
  "dist_inference demo_dist_graph demo_encoder demo_node_feats demo_sampling []
     = Inr ([(''n0'', \<lparr>dt_width = 1, dt_name = ''h-1'', dt_rows = [[1], [1]]\<rparr>),
             (''n1'', \<lparr>dt_width = 1, dt_name = ''h-1'', dt_rows = [[1], [1], [1]]\<rparr>)],
            [((''n0'', ''h-0''), \<lparr>dt_width = 2, dt_name = ''h-0'', dt_rows = [[1, 1], [1, 1]]\<rparr>),
             ((''n1'', ''h-0''),
              \<lparr>dt_width = 2, dt_name = ''h-0'', dt_rows = [[1, 1], [1, 1], [1, 1]]\<rparr>),
             ((''n0'', ''h-1''), \<lparr>dt_width = 1, dt_name = ''h-1'', dt_rows = [[1], [1]]\<rparr>),
             ((''n1'', ''h-1''), \<lparr>dt_width = 1, dt_name = ''h-1'', dt_rows = [[1], [1], [1]]\<rparr>)])
   \<and> (\<exists>t. map_of
            [((''n0'', ''h-0''), \<lparr>dt_width = 2, dt_name = ''h-0'', dt_rows = [[1, 1], [1, 1 :: int]]\<rparr>),
             ((''n1'', ''h-0''),
              \<lparr>dt_width = 2, dt_name = ''h-0'', dt_rows = [[1, 1], [1, 1], [1, 1]]\<rparr>),
             ((''n0'', ''h-1''), \<lparr>dt_width = 1, dt_name = ''h-1'', dt_rows = [[1], [1]]\<rparr>),
             ((''n1'', ''h-1''), \<lparr>dt_width = 1, dt_name = ''h-1'', dt_rows = [[1], [1], [1]]\<rparr>)]
            (''n1'', ''h-'' @ str_nat 0) = Some t
          \<and> dt_shape t = (3, 2))
   \<and> (\<exists>t. map_of [(''n0'', \<lparr>dt_width = 1, dt_name = ''h-1'', dt_rows = [[1], [1 :: int]]\<rparr>),
                    (''n1'', \<lparr>dt_width = 1, dt_name = ''h-1'', dt_rows = [[1], [1], [1]]\<rparr>)]
              ''n1'' = Some t
          \<and> dt_shape t = (3, 1) \<and> length (dt_rows t) = 3)
   \<and> dist_inference demo_dist_graph demo_encoder demo_node_feats demo_sampling
       [((''n0'', ''h-0''), \<lparr>dt_width = 5, dt_name = ''h-0'', dt_rows = [[0, 0, 0, 0, 0]]\<rparr>)]
     = Inl AssertionError"
proof -
  let ?y = "[(''n0'', \<lparr>dt_width = 1, dt_name = ''h-1'', dt_rows = [[1], [1 :: int]]\<rparr>),
             (''n1'', \<lparr>dt_width = 1, dt_name = ''h-1'', dt_rows = [[1], [1], [1]]\<rparr>)]"
  let ?s = "[((''n0'', ''h-0''), \<lparr>dt_width = 2, dt_name = ''h-0'', dt_rows = [[1, 1], [1, 1 :: int]]\<rparr>),
             ((''n1'', ''h-0''),
              \<lparr>dt_width = 2, dt_name = ''h-0'', dt_rows = [[1, 1], [1, 1], [1, 1]]\<rparr>),
             ((''n0'', ''h-1''), \<lparr>dt_width = 1, dt_name = ''h-1'', dt_rows = [[1], [1]]\<rparr>),
             ((''n1'', ''h-1''), \<lparr>dt_width = 1, dt_name = ''h-1'', dt_rows = [[1], [1], [1]]\<rparr>)]"
  let ?old = "[((''n0'', ''h-0''),
                \<lparr>dt_width = 5, dt_name = ''h-0'', dt_rows = [[0, 0, 0, 0, 0 :: int]]\<rparr>)]"
  have k: "''n1'' \<in> set (g_ntypes demo_dist_graph)"
    by (simp add: demo_dist_graph_def)
  have i: "0 < length (enc_layers demo_encoder)"
    by (simp add: demo_encoder_def)
  have run: "dist_inference demo_dist_graph demo_encoder demo_node_feats demo_sampling []
               = Inr (?y, ?s)"
    by code_simp
  note fresh = dist_inference_output_shapes
      [of demo_dist_graph demo_encoder demo_node_feats demo_sampling "[]"]
  from fresh [THEN conjunct1, rule_format, OF run, THEN conjunct1, rule_format, OF i k]
  have "\<exists>t. map_of ?s (''n1'', ''h-'' @ str_nat 0) = Some t
          \<and> dt_shape t = (g_number_of_nodes demo_dist_graph ''n1'',
               if int 0 < int (length (enc_layers demo_encoder)) - 1
               then enc_h_dims demo_encoder else enc_out_dims demo_encoder)"
    by (rule conjunct1)
  then have a: "\<exists>t. map_of ?s (''n1'', ''h-'' @ str_nat 0) = Some t \<and> dt_shape t = (3, 2)"
    by (simp add: demo_dist_graph_def demo_encoder_def)
  from fresh [THEN conjunct1, rule_format, OF run, THEN conjunct2, rule_format, OF k]
  have "\<exists>t. map_of ?y ''n1'' = Some t
          \<and> dt_shape t = (g_number_of_nodes demo_dist_graph ''n1'', enc_out_dims demo_encoder)
          \<and> length (dt_rows t) = g_number_of_nodes demo_dist_graph ''n1''" .
  then have b: "\<exists>t. map_of ?y ''n1'' = Some t \<and> dt_shape t = (3, 1) \<and> length (dt_rows t) = 3"
    by (simp add: demo_dist_graph_def demo_encoder_def)
  have pre: "enc_layers demo_encoder \<noteq> [] \<and> g_ntypes demo_dist_graph = ''n0'' # [''n1'']
      \<and> map_of ?old (''n0'', ''h-'' @ str_nat 0)
          = Some \<lparr>dt_width = 5, dt_name = ''h-0'', dt_rows = [[0, 0, 0, 0, 0]]\<rparr>
      \<and> dt_shape \<lparr>dt_width = 5, dt_name = ''h-0'', dt_rows = [[0, 0, 0, 0, 0 :: int]]\<rparr>
          \<noteq> (g_number_of_nodes demo_dist_graph ''n0'',
               if int 0 < int (length (enc_layers demo_encoder)) - 1
               then enc_h_dims demo_encoder else enc_out_dims demo_encoder)"
    by code_simp
  from dist_inference_output_shapes
         [of demo_dist_graph demo_encoder demo_node_feats demo_sampling ?old,
          THEN conjunct2, rule_format, OF pre]
  have c: "dist_inference demo_dist_graph demo_encoder demo_node_feats demo_sampling ?old
             = Inl AssertionError" .
  from run a b c show ?thesis
    by (intro conjI)
qed

text \<open>
  Claim C7. Input or output nodes that are not a dictionary are wrapped into one keyed
  by the graph's only node type (an \<open>AssertionError\<close> if the graph does not have exactly
  one), and a mini-batch is processed on the wrapped dictionaries: the features are
  looked up with the wrapped input nodes and scattered with the wrapped output nodes.
  When a mini-batch has been processed, the tensor of every node type that is not among
  its output nodes is as it was before, whatever the layer computed for that type.
\<close>

theorem infer_batch_wraps_and_skips:
  "wrap_nodes g (NotDict t)
     = (if length (g_ntypes g) = 1 then Inr [(g_ntypes g ! 0, t)] else Inl AssertionError)
   \<and> (length (g_ntypes g) = 1 \<longrightarrow>
        infer_batch g x layer (NotDict a, NotDict b, blocks) y
          = infer_batch g x layer
              (IsDict [(g_ntypes g ! 0, a)], IsDict [(g_ntypes g ! 0, b)], blocks) y)
   \<and> (\<forall>inp' out'. wrap_nodes g inp = Inr inp' \<and> wrap_nodes g out = Inr out' \<longrightarrow>
        infer_batch g x layer (inp, out, block # bs) y
          = (case gather_feats x inp' of
               Inl e \<Rightarrow> Inl e
             | Inr h \<Rightarrow> scatter_outputs out' (layer block h) y))
   \<and> (\<forall>out' y' k. wrap_nodes g out = Inr out'
          \<and> infer_batch g x layer (inp, out, blocks) y = Inr y'
          \<and> map_of out' k = None \<longrightarrow> map_of y' k = map_of y k)"
proof (intro conjI allI impI)
  show "wrap_nodes g (NotDict t)
     = (if length (g_ntypes g) = 1 then Inr [(g_ntypes g ! 0, t)] else Inl AssertionError)"
    by (simp add: wrap_nodes_def)
next
  assume "length (g_ntypes g) = 1"
  then show "infer_batch g x layer (NotDict a, NotDict b, blocks) y
          = infer_batch g x layer
              (IsDict [(g_ntypes g ! 0, a)], IsDict [(g_ntypes g ! 0, b)], blocks) y"
    by (simp add: infer_batch_def wrap_nodes_def)
next
  fix inp' out'
  assume "wrap_nodes g inp = Inr inp' \<and> wrap_nodes g out = Inr out'"
  then show "infer_batch g x layer (inp, out, block # bs) y
          = (case gather_feats x inp' of
               Inl e \<Rightarrow> Inl e
             | Inr h \<Rightarrow> scatter_outputs out' (layer block h) y)"
    by (simp add: infer_batch_def)
next
  fix out' y' k
  assume a: "wrap_nodes g out = Inr out'
          \<and> infer_batch g x layer (inp, out, blocks) y = Inr y'
          \<and> map_of out' k = None"
  then obtain h block where "scatter_outputs out' (layer block h) y = Inr y'"
    by (auto simp: infer_batch_def split: list.splits sum.splits)
  with a show "map_of y' k = map_of y k"
    by (blast intro: scatter_outputs_skips)
qed


theorem infer_batch_wraps_and_skips_witness:
  "length (g_ntypes demo_homo_graph) = 1
   \<and> infer_batch demo_homo_graph demo_node_feats (demo_layer 2)
       (NotDict [0, 1], NotDict [1], [[(''n0'', 1)]])
       [(''n0'', \<lparr>dt_width = 2, dt_name = ''h-0'', dt_rows = [[0, 0], [0, 0]]\<rparr>)]
     = Inr [(''n0'', \<lparr>dt_width = 2, dt_name = ''h-0'', dt_rows = [[0, 0], [1, 1]]\<rparr>)]
   \<and> map_of [(''n0'', [0 :: nat, 1])] ''n1'' = None
   \<and> infer_batch demo_dist_graph demo_node_feats (demo_layer 2)
       (IsDict [(''n0'', [0, 1]), (''n1'', [0, 1, 2])], IsDict [(''n0'', [0, 1])],
        [[(''n0'', 2), (''n1'', 3)]])
       [(''n0'', \<lparr>dt_width = 2, dt_name = ''h-0'', dt_rows = [[0, 0], [0, 0]]\<rparr>),
        (''n1'', \<lparr>dt_width = 2, dt_name = ''h-0'', dt_rows = [[0, 0], [0, 0], [0, 0]]\<rparr>)]
     = Inr [(''n0'', \<lparr>dt_width = 2, dt_name = ''h-0'', dt_rows = [[1, 1], [1, 1]]\<rparr>),
            (''n1'', \<lparr>dt_width = 2, dt_name = ''h-0'', dt_rows = [[0, 0], [0, 0], [0, 0]]\<rparr>)]
   \<and> map_of [(''n0'', \<lparr>dt_width = 2, dt_name = ''h-0'', dt_rows = [[1, 1], [1, 1 :: int]]\<rparr>),
            (''n1'', \<lparr>dt_width = 2, dt_name = ''h-0'', dt_rows = [[0, 0], [0, 0], [0, 0]]\<rparr>)]
       ''n1''
     = map_of [(''n0'', \<lparr>dt_width = 2, dt_name = ''h-0'', dt_rows = [[0, 0], [0, 0 :: int]]\<rparr>),
               (''n1'', \<lparr>dt_width = 2, dt_name = ''h-0'', dt_rows = [[0, 0], [0, 0], [0, 0]]\<rparr>)]
         ''n1''"
proof -
  let ?h0 = "[(''n0'', \<lparr>dt_width = 2, dt_name = ''h-0'', dt_rows = [[0, 0], [0, 0 :: int]]\<rparr>)]"
  let ?y0 = "[(''n0'', \<lparr>dt_width = 2, dt_name = ''h-0'', dt_rows = [[0, 0], [0, 0 :: int]]\<rparr>),
              (''n1'', \<lparr>dt_width = 2, dt_name = ''h-0'', dt_rows = [[0, 0], [0, 0], [0, 0]]\<rparr>)]"
  let ?y1 = "[(''n0'', \<lparr>dt_width = 2, dt_name = ''h-0'', dt_rows = [[1, 1], [1, 1 :: int]]\<rparr>),
              (''n1'', \<lparr>dt_width = 2, dt_name = ''h-0'', dt_rows = [[0, 0], [0, 0], [0, 0]]\<rparr>)]"
  let ?inp = "IsDict [(''n0'', [0, 1]), (''n1'', [0, 1, 2])]"
  let ?out = "IsDict [(''n0'', [0, 1])]"
  let ?blocks = "[[(''n0'', 2 :: nat), (''n1'', 3)]]"
  have one: "length (g_ntypes demo_homo_graph) = 1"
    by (simp add: demo_homo_graph_def)
  have wrapped: "infer_batch demo_homo_graph demo_node_feats (demo_layer 2)
       (IsDict [(g_ntypes demo_homo_graph ! 0, [0, 1])],
        IsDict [(g_ntypes demo_homo_graph ! 0, [1])], [[(''n0'', 1)]]) ?h0
     = Inr [(''n0'', \<lparr>dt_width = 2, dt_name = ''h-0'', dt_rows = [[0, 0], [1, 1]]\<rparr>)]"
    by code_simp
  from infer_batch_wraps_and_skips
         [of demo_homo_graph "[]" demo_node_feats "demo_layer 2" "[0, 1]" "[1]" "[[(''n0'', 1)]]"
             ?h0] one
  have "infer_batch demo_homo_graph demo_node_feats (demo_layer 2)
          (NotDict [0, 1], NotDict [1], [[(''n0'', 1)]]) ?h0
        = infer_batch demo_homo_graph demo_node_feats (demo_layer 2)
            (IsDict [(g_ntypes demo_homo_graph ! 0, [0, 1])],
             IsDict [(g_ntypes demo_homo_graph ! 0, [1])], [[(''n0'', 1)]]) ?h0"
    by blast
  with wrapped have a: "infer_batch demo_homo_graph demo_node_feats (demo_layer 2)
       (NotDict [0, 1], NotDict [1], [[(''n0'', 1)]]) ?h0
     = Inr [(''n0'', \<lparr>dt_width = 2, dt_name = ''h-0'', dt_rows = [[0, 0], [1, 1]]\<rparr>)]"
    by simp
  have w: "wrap_nodes demo_dist_graph ?out = Inr [(''n0'', [0, 1])]"
    by (simp add: wrap_nodes_def)
  have n: "map_of [(''n0'', [0 :: nat, 1])] ''n1'' = None"
    by simp
  have run: "infer_batch demo_dist_graph demo_node_feats (demo_layer 2) (?inp, ?out, ?blocks) ?y0
               = Inr ?y1"
    by code_simp
  from infer_batch_wraps_and_skips
         [of demo_dist_graph "[]" demo_node_feats "demo_layer 2" "[]" "[]" ?blocks ?y0 ?inp ?out]
       w run n
  have "map_of ?y1 ''n1'' = map_of ?y0 ''n1''"
    by blast
  with one a n run show ?thesis
    by (intro conjI)
qed

section \<open>Properties of the raw-text persistence\<close>

lemma load_after_save_raw_text:
  "load_raw_text (save_raw_text fs path dname raw_text) path dname = Inl TypeError"
  by (simp add: save_raw_text_def load_raw_text_def split: prod.splits)

text \<open>
  Claim C8 says that \<open>load_raw_text\<close> after \<open>save_raw_text\<close> returns the saved
  mapping. The code does not: \<open>save_raw_text\<close> pickles \<open>{"nodes": {ntype: file}}\<close>,
  and \<open>load_raw_text\<close> iterates over the items of that outer dictionary, so its first
  item is \<open>("nodes", {...})\<close> and \<open>os.path.join\<close> raises \<open>TypeError\<close> on the inner
  dictionary. Here it is evaluated for one node type with one line of text.
\<close>

theorem load_raw_text_after_save_raises:
  "load_raw_text (save_raw_text Map.empty ''/tmp'' ''d'' [(''n0'', [''a''])]) ''/tmp'' ''d''
     = Inl TypeError
   \<and> load_raw_text (save_raw_text Map.empty ''/tmp'' ''d'' [(''n0'', [''a''])]) ''/tmp'' ''d''
     \<noteq> Inr [(''n0'', [''a''])]"
  by (simp add: save_raw_text_def load_raw_text_def split: prod.splits)

end
